theory Spec2Isabelle
  imports Main "HOL-Library.Word"
begin

section \<open>The resource compiler of aapt2: \<^verbatim>\<open>tools/aapt2/compile/Compile.cpp\<close>\<close>

text \<open>
  The development embeds the compile phase of aapt2.  Everything that \<^verbatim>\<open>Compile.cpp\<close>
  itself does is a HOL definition below, under the name the C++ gives it.  What the file only
  calls (the XML and PNG libraries, the resource parser, the protocol-buffer serialisers, the
  file system and the archive writers) is a field of the record \<open>Env\<close>: a function of the
  arguments the call receives, so that every theorem holds for every behaviour of those
  collaborators.
\<close>

subsection \<open>Strings\<close>

type_synonym byte = "8 word"

text \<open>
  Modelled from the spec: \<^verbatim>\<open>file::sDirSep\<close> of \<^verbatim>\<open>util/Files.h\<close>, the platform directory
  separator, which is not among the sources.  The value is the one of every platform but
  Windows, and the one the paths of the specification are written with.
\<close>

definition sDirSep :: char where
  "sDirSep = CHR ''/''"

text \<open>
  Modelled from the spec: \<^verbatim>\<open>util::split\<close> of \<^verbatim>\<open>util/Util.h\<close>, which is not among the
  sources: the components of a string between the occurrences of a separator, in order.  An
  empty string has one (empty) component, and two adjacent separators enclose an empty one.
\<close>

fun util_split :: "string \<Rightarrow> char \<Rightarrow> string list" where
  "util_split [] sep = [[]]"
| "util_split (c # cs) sep =
     (if c = sep then [] # util_split cs sep
      else (case util_split cs sep of
              [] \<Rightarrow> [[c]]
            | p # ps \<Rightarrow> (c # p) # ps))"

text \<open>\<^verbatim>\<open>std::string::find(char)\<close>: the position of the first occurrence, \<open>None\<close> for \<^verbatim>\<open>npos\<close>.\<close>

fun find_char :: "string \<Rightarrow> char \<Rightarrow> nat option" where
  "find_char [] c = None"
| "find_char (x # xs) c = (if x = c then Some 0 else map_option Suc (find_char xs c))"

text \<open>\<^verbatim>\<open>std::string::find(const char*)\<close>: the position of the first occurrence of a string.\<close>

fun find_str :: "string \<Rightarrow> string \<Rightarrow> nat option" where
  "find_str [] pat = (if pat = [] then Some 0 else None)"
| "find_str (x # xs) pat =
     (if take (length pat) (x # xs) = pat then Some 0
      else map_option Suc (find_str xs pat))"

text \<open>
  \<^verbatim>\<open>substr(start, len)\<close>.  Every call of the file has \<open>start + len \<le> length s\<close>, where the
  string classes agree.
\<close>

definition substr :: "string \<Rightarrow> nat \<Rightarrow> nat \<Rightarrow> string" where
  "substr s start len = take len (drop start s)"

definition stringStartsWith :: "string \<Rightarrow> string \<Rightarrow> bool" where
  "stringStartsWith s p = (take (length p) s = p)"

subsection \<open>The path classifier\<close>

record Source =
  path :: string
  line :: "nat option"

definition Source_of :: "string \<Rightarrow> Source" where
  "Source_of p = \<lparr>path = p, line = None\<rparr>"

record 'cfg ResourcePathData =
  source :: Source
  resourceDir :: string
  name :: string
  extension :: string
  configStr :: string
  config :: 'cfg

text \<open>
  \<^verbatim>\<open>extractResourcePathData\<close>.  The C++ returns \<^verbatim>\<open>Maybe<ResourcePathData>\<close> and
  stores the reason of a failure in \<^verbatim>\<open>*outError\<close>; here the failure is \<open>Inl\<close> of that
  reason.  \<open>parse\<close> is \<^verbatim>\<open>ConfigDescription::parse\<close> and \<open>dflt\<close> the default-constructed
  \<^verbatim>\<open>ConfigDescription\<close>, both of \<^verbatim>\<open>ConfigDescription.h\<close>.
\<close>

definition extractResourcePathData ::
  "(string \<Rightarrow> 'cfg option) \<Rightarrow> 'cfg \<Rightarrow> string \<Rightarrow> string + 'cfg ResourcePathData" where
  "extractResourcePathData parse dflt p =
     (let parts = util_split p sDirSep in
      if length parts < 2 then Inl ''bad resource path''
      else
        let dir = parts ! (length parts - 2);
            filename = parts ! (length parts - 1);
            name_ext =
              (case find_char filename (CHR ''.'') of
                 None \<Rightarrow> (filename, [])
               | Some dotPos \<Rightarrow>
                   (substr filename 0 dotPos,
                    substr filename (dotPos + 1) (length filename - (dotPos + 1))))
        in
          (case find_char dir (CHR ''-'') of
             None \<Rightarrow>
               Inr \<lparr>source = Source_of p, resourceDir = dir, name = fst name_ext,
                    extension = snd name_ext, configStr = [], config = dflt\<rparr>
           | Some dashPos \<Rightarrow>
               (let cs = substr dir (dashPos + 1) (length dir - (dashPos + 1)) in
                case parse cs of
                  None \<Rightarrow> Inl (''invalid configuration '' @ [CHR 0x27] @ cs @ [CHR 0x27])
                | Some cfg \<Rightarrow>
                    Inr \<lparr>source = Source_of p, resourceDir = substr dir 0 dashPos,
                         name = fst name_ext, extension = snd name_ext,
                         configStr = cs, config = cfg\<rparr>)))"

record CompileOptions =
  outputPath :: string
  resDir :: "string option"
  pseudolocalize :: bool
  legacyMode :: bool
  verbose :: bool

definition buildIntermediateFilename :: "'cfg ResourcePathData \<Rightarrow> string" where
  "buildIntermediateFilename data =
     resourceDir data
     @ (if configStr data \<noteq> [] then ''-'' @ configStr data else [])
     @ ''_'' @ name data
     @ (if extension data \<noteq> [] then ''.'' @ extension data else [])
     @ ''.flat''"

definition isHidden :: "string \<Rightarrow> bool" where
  "isHidden filename = stringStartsWith filename ''.''"

subsection \<open>Data of the compile phase\<close>

record 'rt ResourceName =
  package :: string
  rtype :: 'rt
  entry :: string

text \<open>\<^verbatim>\<open>ResourceFile\<close>, with the fields the file assigns: \<^verbatim>\<open>name\<close>, \<^verbatim>\<open>config\<close>, \<^verbatim>\<open>source\<close>.\<close>

record ('cfg, 'rt) ResourceFile =
  file_name :: "'rt ResourceName"
  file_config :: 'cfg
  file_source :: Source

record ('cfg, 'rt, 'dom) XmlResource =
  xml_file :: "('cfg, 'rt) ResourceFile"
  xml_root :: 'dom

record 'ent ResourceTablePackage =
  pkg_name :: string
  pkg_id :: "8 word option"
  pkg_types :: 'ent

record 'ent ResourceTable =
  packages :: "'ent ResourceTablePackage list"

record ResourceParserOptions =
  errorOnPositionalArguments :: bool
  translatable :: bool

text \<open>
  \<^verbatim>\<open>Image\<close>: \<^verbatim>\<open>int32_t width, height\<close> and the array \<^verbatim>\<open>rows\<close> of row pointers.  A
  pointer is an address, and \<open>mem\<close> gives the bytes of the row buffer at an address (four per
  pixel), so that two slots of \<open>rows\<close> holding one pointer share its bytes.
\<close>

record Image =
  width :: "32 word"
  height :: "32 word"
  rows :: "nat list"
  mem :: "nat \<rightharpoonup> byte list"

record CompileContext =
  mVerbose :: bool

definition getCompilationPackage :: "CompileContext \<Rightarrow> string" where
  "getCompilationPackage context = []"

definition getPackageId :: "CompileContext \<Rightarrow> 8 word" where
  "getPackageId context = 0x0"

text \<open>What \<^verbatim>\<open>Flags::parse\<close> stores through the pointers \<^verbatim>\<open>compile\<close> registers, and \<^verbatim>\<open>getArgs()\<close>.\<close>

record ParsedFlags =
  flag_o :: string
  flag_dir :: "string option"
  flag_pseudo_localize :: bool
  flag_legacy :: bool
  flag_v :: bool
  flag_args :: "string list"

subsection \<open>Effects\<close>

text \<open>
  The state of a run: the diagnostics \<^verbatim>\<open>Compile.cpp\<close> itself reports, the files it asks
  the file system for, and the calls it makes on the archive writer, each in the order of
  the calls.  An archive entry is what lies between a \<open>StartEntry\<close> and the next
  \<open>FinishEntry\<close>; its body is the sequence of the values handed to the output stream.
\<close>

datatype DiagMessage =
  Error "Source option" string
| Note "Source option" string

datatype FileAccess =
  Opendir string
| GetFileType string
| Ifstream string
| ReadFileToString string
| MmapPath string

datatype ('cfg, 'rt, 'ent) Output =
  WriteLittleEndian32 "32 word"
| WriteCompiledFile "('cfg, 'rt) ResourceFile"
| WriteData string
| SerializeTable "'ent ResourceTable"

datatype ('cfg, 'rt, 'ent) WriterCall =
  CreateZipFileArchiveWriter string
| CreateDirectoryArchiveWriter string
| StartEntry string
| Write "('cfg, 'rt, 'ent) Output"
| FinishEntry

record ('cfg, 'rt, 'ent) State =
  diag :: "DiagMessage list"
  accesses :: "FileAccess list"
  archive :: "('cfg, 'rt, 'ent) WriterCall list"

definition initial :: "('cfg, 'rt, 'ent) State" where
  "initial = \<lparr>diag = [], accesses = [], archive = []\<rparr>"

text \<open>
  The collaborators.  A read of the file system gives \<open>Inl\<close> of the text of \<^verbatim>\<open>errno\<close> or
  \<open>Inr\<close> of the content.  The three \<open>\<dots>Ok\<close> fields say whether a call on the archive writer
  succeeds, given the calls made before it.  Diagnostics a collaborator prints by itself are
  not recorded.
\<close>

record ('cfg, 'rt, 'ent, 'dom, 'np) Env =
  flags_parse :: "string list \<Rightarrow> ParsedFlags option"
  configDescription_parse :: "string \<Rightarrow> 'cfg option"
  configDescription_default :: 'cfg
  parseResourceType :: "string \<Rightarrow> 'rt option"
  kRaw :: 'rt
  opendir :: "string \<Rightarrow> string + string list"
  isDirectory :: "string \<Rightarrow> bool"
  appendPath :: "string \<Rightarrow> string \<Rightarrow> string"
  ifstream :: "string \<Rightarrow> string + string"
  readFileToString :: "string \<Rightarrow> string + string"
  mmapPath :: "string \<Rightarrow> string + string"
  resourceParser_parse ::
    "Source \<Rightarrow> 'cfg \<Rightarrow> ResourceParserOptions \<Rightarrow> string \<Rightarrow> 'ent ResourceTable option"
  pseudolocaleGenerator_consume ::
    "CompileContext \<Rightarrow> 'ent ResourceTable \<Rightarrow> 'ent ResourceTable option"
  createPackage :: "string \<Rightarrow> 'ent ResourceTable \<Rightarrow> 'ent ResourceTable"
  xml_inflate :: "string \<Rightarrow> Source \<Rightarrow> ('cfg, 'rt, 'dom) XmlResource option"
  xmlIdCollector_consume ::
    "CompileContext \<Rightarrow> ('cfg, 'rt, 'dom) XmlResource \<Rightarrow> ('cfg, 'rt, 'dom) XmlResource option"
  inlineXmlFormatParser_consume ::
    "CompileContext \<Rightarrow> ('cfg, 'rt, 'dom) XmlResource \<Rightarrow>
       (('cfg, 'rt, 'dom) XmlResource \<times> ('cfg, 'rt, 'dom) XmlResource list) option"
  xmlFlattener_consume :: "CompileContext \<Rightarrow> ('cfg, 'rt, 'dom) XmlResource \<Rightarrow> string option"
  readPng :: "CompileContext \<Rightarrow> string \<Rightarrow> Image option"
  pngChunkFilter_ByteCount :: "CompileContext \<Rightarrow> string \<Rightarrow> int"
  pngChunkFilter_copy :: "string \<Rightarrow> string"
  ninePatch_create :: "Image \<Rightarrow> string + 'np"
  ninePatch_print :: "'np \<Rightarrow> string"
  writePng :: "CompileContext \<Rightarrow> Image \<Rightarrow> 'np option \<Rightarrow> string option"
  png_process :: "Source \<Rightarrow> string \<Rightarrow> string option"
  source_print :: "Source \<Rightarrow> string"
  createZipFileArchiveWriter :: "string \<Rightarrow> bool"
  createDirectoryArchiveWriter :: "string \<Rightarrow> bool"
  startEntryOk :: "('cfg, 'rt, 'ent) WriterCall list \<Rightarrow> string \<Rightarrow> bool"
  writeOk :: "('cfg, 'rt, 'ent) WriterCall list \<Rightarrow> ('cfg, 'rt, 'ent) Output \<Rightarrow> bool"
  finishEntryOk :: "('cfg, 'rt, 'ent) WriterCall list \<Rightarrow> bool"

definition diag_error :: "Source option \<Rightarrow> string \<Rightarrow> ('cfg, 'rt, 'ent) State \<Rightarrow> ('cfg, 'rt, 'ent) State" where
  "diag_error src msg st = st\<lparr>diag := diag st @ [Error src msg]\<rparr>"

definition diag_note :: "Source option \<Rightarrow> string \<Rightarrow> ('cfg, 'rt, 'ent) State \<Rightarrow> ('cfg, 'rt, 'ent) State" where
  "diag_note src msg st = st\<lparr>diag := diag st @ [Note src msg]\<rparr>"

definition file_access :: "FileAccess \<Rightarrow> ('cfg, 'rt, 'ent) State \<Rightarrow> ('cfg, 'rt, 'ent) State" where
  "file_access a st = st\<lparr>accesses := accesses st @ [a]\<rparr>"

text \<open>\<^verbatim>\<open>writer->startEntry(path, 0)\<close> and \<^verbatim>\<open>writer->finishEntry()\<close>: the result, and the state after.\<close>

definition startEntry ::
  "('cfg, 'rt, 'ent, 'dom, 'np) Env \<Rightarrow> string \<Rightarrow> ('cfg, 'rt, 'ent) State \<Rightarrow>
     bool \<times> ('cfg, 'rt, 'ent) State" where
  "startEntry env p st =
     (startEntryOk env (archive st) p, st\<lparr>archive := archive st @ [StartEntry p]\<rparr>)"

definition finishEntry ::
  "('cfg, 'rt, 'ent, 'dom, 'np) Env \<Rightarrow> ('cfg, 'rt, 'ent) State \<Rightarrow> bool \<times> ('cfg, 'rt, 'ent) State" where
  "finishEntry env st =
     (finishEntryOk env (archive st), st\<lparr>archive := archive st @ [FinishEntry]\<rparr>)"

text \<open>
  A write on the stream over the writer (\<^verbatim>\<open>CopyingOutputStreamAdaptor\<close>, and
  \<^verbatim>\<open>CompiledFileOutputStream\<close> over it).  The flag beside the state is \<^verbatim>\<open>HadError()\<close>: it
  is set by a write that fails and stays set.
\<close>

definition streamWrite ::
  "('cfg, 'rt, 'ent, 'dom, 'np) Env \<Rightarrow> ('cfg, 'rt, 'ent) Output \<Rightarrow>
     bool \<times> ('cfg, 'rt, 'ent) State \<Rightarrow> bool \<times> ('cfg, 'rt, 'ent) State" where
  "streamWrite env x out =
     (case out of (hadError, st) \<Rightarrow>
        (hadError \<or> \<not> writeOk env (archive st) x, st\<lparr>archive := archive st @ [Write x]\<rparr>))"

text \<open>The decimal digits \<^verbatim>\<open>operator<<\<close> prints for a \<^verbatim>\<open>size_t\<close>.\<close>

fun show_nat :: "nat \<Rightarrow> string" where
  "show_nat n =
     (if n < 10 then [char_of (48 + n)]
      else show_nat (n div 10) @ [char_of (48 + n mod 10)])"

declare show_nat.simps [simp del]

subsection \<open>The envelope writers\<close>

definition writeHeaderAndBufferToWriter ::
  "('cfg, 'rt, 'ent, 'dom, 'np) Env \<Rightarrow> string \<Rightarrow> ('cfg, 'rt) ResourceFile \<Rightarrow> string \<Rightarrow>
     ('cfg, 'rt, 'ent) State \<Rightarrow> bool \<times> ('cfg, 'rt, 'ent) State" where
  "writeHeaderAndBufferToWriter env outPath fl buffer st =
     (case startEntry env outPath st of (started, st1) \<Rightarrow>
        if \<not> started then
          (False, diag_error (Some (Source_of outPath)) ''failed to open file'' st1)
        else
          (case streamWrite env (WriteData buffer)
                  (streamWrite env (WriteCompiledFile fl)
                     (streamWrite env (WriteLittleEndian32 1) (False, st1))) of
             (hadError, st2) \<Rightarrow>
               if hadError then
                 (False, diag_error (Some (Source_of outPath)) ''failed to write data'' st2)
               else
                 (case finishEntry env st2 of (finished, st3) \<Rightarrow>
                    if \<not> finished then
                      (False,
                       diag_error (Some (Source_of outPath)) ''failed to finish writing data'' st3)
                    else (True, st3))))"

definition writeHeaderAndMmapToWriter ::
  "('cfg, 'rt, 'ent, 'dom, 'np) Env \<Rightarrow> string \<Rightarrow> ('cfg, 'rt) ResourceFile \<Rightarrow> string \<Rightarrow>
     ('cfg, 'rt, 'ent) State \<Rightarrow> bool \<times> ('cfg, 'rt, 'ent) State" where
  "writeHeaderAndMmapToWriter env outPath fl fmap st =
     (case startEntry env outPath st of (started, st1) \<Rightarrow>
        if \<not> started then
          (False, diag_error (Some (Source_of outPath)) ''failed to open file'' st1)
        else
          (case streamWrite env (WriteData fmap)
                  (streamWrite env (WriteCompiledFile fl)
                     (streamWrite env (WriteLittleEndian32 1) (False, st1))) of
             (hadError, st2) \<Rightarrow>
               if hadError then
                 (False, diag_error (Some (Source_of outPath)) ''failed to write data'' st2)
               else
                 (case finishEntry env st2 of (finished, st3) \<Rightarrow>
                    if \<not> finished then
                      (False,
                       diag_error (Some (Source_of outPath)) ''failed to finish writing data'' st3)
                    else (True, st3))))"

subsection \<open>The values compiler\<close>

text \<open>The loop of \<^verbatim>\<open>compileTable\<close> that gives an ID to every package that has none.\<close>

definition assignPackageIds :: "CompileContext \<Rightarrow> 'ent ResourceTable \<Rightarrow> 'ent ResourceTable" where
  "assignPackageIds context table =
     table\<lparr>packages :=
       map (\<lambda>pkg. if pkg_id pkg = None then pkg\<lparr>pkg_id := Some (getPackageId context)\<rparr> else pkg)
         (packages table)\<rparr>"

text \<open>
  The parser options \<^verbatim>\<open>compileTable\<close> sets up: positional arguments are an error unless
  \<^verbatim>\<open>--legacy\<close> is given, and \<^verbatim>\<open>translatable\<close> is
  \<^verbatim>\<open>pathData.name.find("donottranslate") == std::string::npos\<close>.
\<close>

definition tableParserOptions ::
  "CompileOptions \<Rightarrow> 'cfg ResourcePathData \<Rightarrow> ResourceParserOptions" where
  "tableParserOptions options pathData =
     \<lparr>errorOnPositionalArguments = \<not> legacyMode options,
      translatable = (find_str (name pathData) ''donottranslate'' = None)\<rparr>"

definition compileTable ::
  "('cfg, 'rt, 'ent, 'dom, 'np) Env \<Rightarrow> CompileContext \<Rightarrow> CompileOptions \<Rightarrow>
     'cfg ResourcePathData \<Rightarrow> string \<Rightarrow> ('cfg, 'rt, 'ent) State \<Rightarrow>
     bool \<times> ('cfg, 'rt, 'ent) State" where
  "compileTable env context options pathData outPath st =
     (let st1 = file_access (Ifstream (path (source pathData))) st in
      case ifstream env (path (source pathData)) of
        Inl err \<Rightarrow> (False, diag_error (Some (source pathData)) err st1)
      | Inr fin \<Rightarrow>
          (let parserOptions = tableParserOptions options pathData in
             case resourceParser_parse env (source pathData) (config pathData) parserOptions fin of
               None \<Rightarrow> (False, st1)
             | Some table \<Rightarrow>
                 (case (if pseudolocalize options
                        then pseudolocaleGenerator_consume env context table
                        else Some table) of
                    None \<Rightarrow> (False, st1)
                  | Some table1 \<Rightarrow>
                      (let table2 =
                             assignPackageIds context
                               (createPackage env (getCompilationPackage context) table1)
                       in
                         case startEntry env outPath st1 of (started, st2) \<Rightarrow>
                           if \<not> started then
                             (False, diag_error (Some (Source_of outPath)) ''failed to open'' st2)
                           else
                             (case streamWrite env (SerializeTable table2) (False, st2) of
                                (hadError, st3) \<Rightarrow>
                                  if hadError then
                                    (False,
                                     diag_error (Some (Source_of outPath)) ''failed to write'' st3)
                                  else
                                    (case finishEntry env st3 of (finished, st4) \<Rightarrow>
                                       if \<not> finished then
                                         (False,
                                          diag_error (Some (Source_of outPath))
                                            ''failed to finish entry'' st4)
                                       else (True, st4)))))))"

subsection \<open>The XML compiler\<close>

definition flattenXmlToOutStream ::
  "('cfg, 'rt, 'ent, 'dom, 'np) Env \<Rightarrow> CompileContext \<Rightarrow> string \<Rightarrow>
     ('cfg, 'rt, 'dom) XmlResource \<Rightarrow> bool \<times> ('cfg, 'rt, 'ent) State \<Rightarrow>
     bool \<times> bool \<times> ('cfg, 'rt, 'ent) State" where
  "flattenXmlToOutStream env context outPath xmlRes out =
     (case xmlFlattener_consume env context xmlRes of
        None \<Rightarrow> (False, out)
      | Some buffer \<Rightarrow>
          (case streamWrite env (WriteData buffer)
                  (streamWrite env (WriteCompiledFile (xml_file xmlRes)) out) of
             (hadError, st1) \<Rightarrow>
               if hadError then
                 (False, hadError,
                  diag_error (Some (Source_of outPath)) ''failed to write data'' st1)
               else (True, hadError, st1)))"

text \<open>
  The loop of \<^verbatim>\<open>compileXml\<close> over the extracted documents; it leaves at the first one
  that fails to flatten.
\<close>

fun flattenInlineDocuments ::
  "('cfg, 'rt, 'ent, 'dom, 'np) Env \<Rightarrow> CompileContext \<Rightarrow> string \<Rightarrow>
     ('cfg, 'rt, 'dom) XmlResource list \<Rightarrow> bool \<times> ('cfg, 'rt, 'ent) State \<Rightarrow>
     bool \<times> bool \<times> ('cfg, 'rt, 'ent) State" where
  "flattenInlineDocuments env context outPath [] out = (True, out)"
| "flattenInlineDocuments env context outPath (inlineXmlDoc # docs) out =
     (case flattenXmlToOutStream env context outPath inlineXmlDoc out of
        (ok, out1) \<Rightarrow>
          if \<not> ok then (False, out1)
          else flattenInlineDocuments env context outPath docs out1)"

text \<open>
  \<^verbatim>\<open>compileXml\<close>, \<^verbatim>\<open>compilePng\<close> and \<^verbatim>\<open>compileFile\<close> dereference the pointer
  \<^verbatim>\<open>parseResourceType\<close> returns; the result \<open>None\<close> stands for a run whose behaviour C++
  leaves undefined (here, the dereference of a null pointer).
\<close>

definition compileXml ::
  "('cfg, 'rt, 'ent, 'dom, 'np) Env \<Rightarrow> CompileContext \<Rightarrow> CompileOptions \<Rightarrow>
     'cfg ResourcePathData \<Rightarrow> string \<Rightarrow> ('cfg, 'rt, 'ent) State \<Rightarrow>
     (bool \<times> ('cfg, 'rt, 'ent) State) option" where
  "compileXml env context options pathData outPath st =
     (let st0 = (if mVerbose context
                 then diag_note (Some (source pathData)) ''compiling XML'' st else st);
          st1 = file_access (Ifstream (path (source pathData))) st0
      in
        case ifstream env (path (source pathData)) of
          Inl err \<Rightarrow> Some (False, diag_error (Some (source pathData)) err st1)
        | Inr fin \<Rightarrow>
            (case xml_inflate env fin (source pathData) of
               None \<Rightarrow> Some (False, st1)
             | Some xmlRes0 \<Rightarrow>
                 (case parseResourceType env (resourceDir pathData) of
                    None \<Rightarrow> None
                  | Some ty \<Rightarrow>
                      (let xmlRes1 =
                             xmlRes0\<lparr>xml_file := (xml_file xmlRes0)
                               \<lparr>file_name := \<lparr>package = [], rtype = ty, entry = name pathData\<rparr>,
                                file_config := config pathData,
                                file_source := source pathData\<rparr>\<rparr>
                       in
                         case xmlIdCollector_consume env context xmlRes1 of
                           None \<Rightarrow> Some (False, st1)
                         | Some xmlRes2 \<Rightarrow>
                             (case inlineXmlFormatParser_consume env context xmlRes2 of
                                None \<Rightarrow> Some (False, st1)
                              | Some (xmlRes3, inlineDocuments) \<Rightarrow>
                                  (case startEntry env outPath st1 of (started, st2) \<Rightarrow>
                                     if \<not> started then
                                       Some (False,
                                         diag_error (Some (Source_of outPath))
                                           ''failed to open file'' st2)
                                     else
                                       (case flattenXmlToOutStream env context outPath xmlRes3
                                               (streamWrite env
                                                  (WriteLittleEndian32
                                                     (of_nat (1 + length inlineDocuments)))
                                                  (False, st2)) of
                                          (ok1, out1) \<Rightarrow>
                                            if \<not> ok1 then Some (False, snd out1)
                                            else
                                              (case flattenInlineDocuments env context outPath
                                                      inlineDocuments out1 of
                                                 (ok2, out2) \<Rightarrow>
                                                   if \<not> ok2 then Some (False, snd out2)
                                                   else
                                                     (case finishEntry env (snd out2) of
                                                        (finished, st3) \<Rightarrow>
                                                          if \<not> finished then
                                                            Some (False,
                                                              diag_error
                                                                (Some (Source_of outPath))
                                                                ''failed to finish writing data''
                                                                st3)
                                                          else Some (True, st3))))))))))"

subsection \<open>The PNG compiler\<close>

text \<open>
  \<^verbatim>\<open>memmove(rows, rows + 1, n * sizeof(uint8_t**))\<close> on the array of row pointers and
  \<^verbatim>\<open>memmove(row, row + 4, n)\<close> on the bytes of one row.  A move of no bytes reads nothing;
  any other one reads \<open>n\<close> elements from the second (the fifth) on, and \<open>None\<close> is the read
  past the end of the array.
\<close>

definition memmove_rows :: "nat list \<Rightarrow> nat \<Rightarrow> nat list option" where
  "memmove_rows rs n =
     (if n = 0 then Some rs
      else if length rs < n + 1 then None
      else Some (take n (drop 1 rs) @ drop n rs))"

definition memmove_row :: "byte list \<Rightarrow> nat \<Rightarrow> byte list option" where
  "memmove_row r n =
     (if n = 0 then Some r
      else if length r < n + 4 then None
      else Some (take n (drop 4 r) @ drop n r))"

text \<open>
  The loop \<^verbatim>\<open>for (h = 0; h < image->height; h++) memmove(image->rows[h], \<dots>)\<close> over the
  pointers \<open>rows[0]\<close> to \<open>rows[height - 1]\<close>, each move of \<open>n\<close> bytes.
\<close>

fun shiftRows :: "nat \<Rightarrow> nat list \<Rightarrow> (nat \<rightharpoonup> byte list) \<Rightarrow> (nat \<rightharpoonup> byte list) option" where
  "shiftRows n [] m = Some m"
| "shiftRows n (a # as) m =
     (case m a of
        None \<Rightarrow> None
      | Some r \<Rightarrow>
          (case memmove_row r n of
             None \<Rightarrow> None
           | Some r' \<Rightarrow> shiftRows n as (m(a \<mapsto> r'))))"

text \<open>
  The removal of the border in \<^verbatim>\<open>compilePng\<close> (from \<^verbatim>\<open>image->width -= 2\<close> to the end
  of the loop).  \<open>None\<close> is undefined behaviour: a subtraction or a product that leaves
  \<^verbatim>\<open>int32_t\<close>, a negative count (which \<^verbatim>\<open>memmove\<close> receives as a huge \<^verbatim>\<open>size_t\<close>), or a
  move that reads past its array.
\<close>

definition removeBorder :: "Image \<Rightarrow> Image option" where
  "removeBorder img =
     (let w = sint (width img) - 2;
          h = sint (height img) - 2
      in
        if w < - (2 ^ 31) \<or> h < - (2 ^ 31) then None
        else if h < 0 then None
        else
          (case memmove_rows (rows img) (nat h) of
             None \<Rightarrow> None
           | Some rs \<Rightarrow>
               if 0 < h \<and> (w < 0 \<or> 2 ^ 31 \<le> w * 4) then None
               else
                 (case shiftRows (nat (w * 4)) (take (nat h) rs) (mem img) of
                    None \<Rightarrow> None
                  | Some m \<Rightarrow>
                      Some \<lparr>width = width img - 2, height = height img - 2,
                            rows = rs, mem = m\<rparr>)))"

text \<open>
  \<^verbatim>\<open>compilePng\<close> from \<^verbatim>\<open>writePng\<close> on: the re-encoding, the choice of the payload, the
  legacy cruncher under \<^verbatim>\<open>verbose()\<close>, and the envelope.  \<open>content\<close> is the file's content,
  \<open>img\<close> and \<open>ninePatch\<close> are what the first half leaves (\<open>ninePatch = None\<close> is the null
  pointer).
\<close>

definition compilePng_encode ::
  "('cfg, 'rt, 'ent, 'dom, 'np) Env \<Rightarrow> CompileContext \<Rightarrow> 'cfg ResourcePathData \<Rightarrow> string \<Rightarrow>
     ('cfg, 'rt) ResourceFile \<Rightarrow> string \<Rightarrow> Image \<Rightarrow> 'np option \<Rightarrow> ('cfg, 'rt, 'ent) State \<Rightarrow>
     bool \<times> ('cfg, 'rt, 'ent) State" where
  "compilePng_encode env context pathData outPath resFile content img ninePatch st =
     (case writePng env context img ninePatch of
        None \<Rightarrow> (False, st)
      | Some crunchedPngBuffer \<Rightarrow>
          (let useCrunched =
                 (ninePatch \<noteq> None \<or>
                  int (length crunchedPngBuffer) \<le> pngChunkFilter_ByteCount env context content);
               buffer =
                 (if useCrunched then crunchedPngBuffer else pngChunkFilter_copy env content);
               st1 =
                 (if \<not> useCrunched \<and> mVerbose context
                  then diag_note (Some (source pathData))
                         ''original PNG is smaller than crunched PNG, using original'' st
                  else st)
           in
             if mVerbose context then
               (case png_process env (source pathData) content of
                  None \<Rightarrow> (False, st1)
                | Some legacyBuffer \<Rightarrow>
                    writeHeaderAndBufferToWriter env outPath resFile buffer
                      (diag_note (Some (source pathData))
                         (''legacy='' @ show_nat (length legacyBuffer) @
                          '' new='' @ show_nat (length buffer)) st1))
             else writeHeaderAndBufferToWriter env outPath resFile buffer st1))"

definition compilePng ::
  "('cfg, 'rt, 'ent, 'dom, 'np) Env \<Rightarrow> CompileContext \<Rightarrow> CompileOptions \<Rightarrow>
     'cfg ResourcePathData \<Rightarrow> string \<Rightarrow> ('cfg, 'rt, 'ent) State \<Rightarrow>
     (bool \<times> ('cfg, 'rt, 'ent) State) option" where
  "compilePng env context options pathData outPath st =
     (let st0 = (if mVerbose context
                 then diag_note (Some (source pathData)) ''compiling PNG'' st else st)
      in
        case parseResourceType env (resourceDir pathData) of
          None \<Rightarrow> None
        | Some ty \<Rightarrow>
            (let resFile =
                   \<lparr>file_name = \<lparr>package = [], rtype = ty, entry = name pathData\<rparr>,
                    file_config = config pathData, file_source = source pathData\<rparr>;
                 st1 = file_access (ReadFileToString (path (source pathData))) st0
             in
               case readFileToString env (path (source pathData)) of
                 Inl err \<Rightarrow> Some (False, diag_error (Some (source pathData)) err st1)
               | Inr content \<Rightarrow>
                   (case readPng env context content of
                      None \<Rightarrow> Some (False, st1)
                    | Some img \<Rightarrow>
                        if extension pathData = ''9.png'' then
                          (case ninePatch_create env img of
                             Inl err \<Rightarrow> Some (False, diag_error None err st1)
                           | Inr np \<Rightarrow>
                               (case removeBorder img of
                                  None \<Rightarrow> None
                                | Some stripped \<Rightarrow>
                                    Some (compilePng_encode env context pathData outPath resFile
                                            content stripped (Some np)
                                            (if mVerbose context
                                             then diag_note (Some (source pathData))
                                                    (''9-patch: '' @ ninePatch_print env np) st1
                                             else st1))))
                        else
                          Some (compilePng_encode env context pathData outPath resFile content
                                  img None st1))))"

subsection \<open>The file compiler\<close>

definition compileFile ::
  "('cfg, 'rt, 'ent, 'dom, 'np) Env \<Rightarrow> CompileContext \<Rightarrow> CompileOptions \<Rightarrow>
     'cfg ResourcePathData \<Rightarrow> string \<Rightarrow> ('cfg, 'rt, 'ent) State \<Rightarrow>
     (bool \<times> ('cfg, 'rt, 'ent) State) option" where
  "compileFile env context options pathData outPath st =
     (let st0 = (if mVerbose context
                 then diag_note (Some (source pathData)) ''compiling file'' st else st)
      in
        case parseResourceType env (resourceDir pathData) of
          None \<Rightarrow> None
        | Some ty \<Rightarrow>
            (let resFile =
                   \<lparr>file_name = \<lparr>package = [], rtype = ty, entry = name pathData\<rparr>,
                    file_config = config pathData, file_source = source pathData\<rparr>;
                 st1 = file_access (MmapPath (path (source pathData))) st0
             in
               case mmapPath env (path (source pathData)) of
                 Inl errorStr \<Rightarrow> Some (False, diag_error (Some (source pathData)) errorStr st1)
               | Inr f \<Rightarrow> Some (writeHeaderAndMmapToWriter env outPath resFile f st1)))"

subsection \<open>The input enumerator\<close>

text \<open>
  The two loops of \<^verbatim>\<open>loadInputFilesFromDir\<close>, over the entries \<^verbatim>\<open>readdir\<close> gives for a
  subdirectory and for the root, and the function itself; \<open>rootDir\<close> is
  \<^verbatim>\<open>options.resDir.value()\<close>.  Each returns whether it succeeded, \<^verbatim>\<open>*outPathData\<close> and the
  state.
\<close>

fun loadLeafEntries ::
  "('cfg, 'rt, 'ent, 'dom, 'np) Env \<Rightarrow> string \<Rightarrow> string list \<Rightarrow> 'cfg ResourcePathData list \<Rightarrow>
     ('cfg, 'rt, 'ent) State \<Rightarrow> bool \<times> 'cfg ResourcePathData list \<times> ('cfg, 'rt, 'ent) State" where
  "loadLeafEntries env prefixPath [] outPathData st = (True, outPathData, st)"
| "loadLeafEntries env prefixPath (d_name # leafEntries) outPathData st =
     (if isHidden d_name then loadLeafEntries env prefixPath leafEntries outPathData st
      else
        (case extractResourcePathData (configDescription_parse env)
                (configDescription_default env) (appendPath env prefixPath d_name) of
           Inl errStr \<Rightarrow> (False, outPathData, diag_error None errStr st)
         | Inr pathData \<Rightarrow>
             loadLeafEntries env prefixPath leafEntries (outPathData @ [pathData]) st))"

fun loadDirEntries ::
  "('cfg, 'rt, 'ent, 'dom, 'np) Env \<Rightarrow> string \<Rightarrow> string list \<Rightarrow> 'cfg ResourcePathData list \<Rightarrow>
     ('cfg, 'rt, 'ent) State \<Rightarrow> bool \<times> 'cfg ResourcePathData list \<times> ('cfg, 'rt, 'ent) State" where
  "loadDirEntries env rootDir [] outPathData st = (True, outPathData, st)"
| "loadDirEntries env rootDir (d_name # entries) outPathData st =
     (if isHidden d_name then loadDirEntries env rootDir entries outPathData st
      else
        (let prefixPath = appendPath env rootDir d_name;
             st1 = file_access (GetFileType prefixPath) st
         in
           if \<not> isDirectory env prefixPath then
             loadDirEntries env rootDir entries outPathData st1
           else
             (case opendir env prefixPath of
                Inl err \<Rightarrow>
                  (False, outPathData,
                   diag_error None err (file_access (Opendir prefixPath) st1))
              | Inr leafEntries \<Rightarrow>
                  (case loadLeafEntries env prefixPath leafEntries outPathData
                          (file_access (Opendir prefixPath) st1) of
                     (ok, outPathData1, st2) \<Rightarrow>
                       if \<not> ok then (False, outPathData1, st2)
                       else loadDirEntries env rootDir entries outPathData1 st2))))"

definition loadInputFilesFromDir ::
  "('cfg, 'rt, 'ent, 'dom, 'np) Env \<Rightarrow> string \<Rightarrow> 'cfg ResourcePathData list \<Rightarrow>
     ('cfg, 'rt, 'ent) State \<Rightarrow> bool \<times> 'cfg ResourcePathData list \<times> ('cfg, 'rt, 'ent) State" where
  "loadInputFilesFromDir env rootDir outPathData st =
     (case opendir env rootDir of
        Inl err \<Rightarrow> (False, outPathData, diag_error None err (file_access (Opendir rootDir) st))
      | Inr entries \<Rightarrow>
          loadDirEntries env rootDir entries outPathData (file_access (Opendir rootDir) st))"

text \<open>
  The loop of \<^verbatim>\<open>compile\<close> over \<^verbatim>\<open>flags.getArgs()\<close>: \<open>Inr\<close> of \<^verbatim>\<open>inputData\<close> when every
  path classifies, \<open>Inl\<close> of the reason and the path at the first that does not.
\<close>

fun collectPathData ::
  "('cfg, 'rt, 'ent, 'dom, 'np) Env \<Rightarrow> string list \<Rightarrow> 'cfg ResourcePathData list \<Rightarrow>
     (string \<times> string) + 'cfg ResourcePathData list" where
  "collectPathData env [] inputData = Inr inputData"
| "collectPathData env (arg # args) inputData =
     (case extractResourcePathData (configDescription_parse env)
             (configDescription_default env) arg of
        Inr pathData \<Rightarrow> collectPathData env args (inputData @ [pathData])
      | Inl errorStr \<Rightarrow> Inl (errorStr, arg))"

subsection \<open>The driver\<close>

text \<open>
  The body of the loop of \<^verbatim>\<open>compile\<close> over \<^verbatim>\<open>inputData\<close>.  The boolean is \<open>False\<close> where
  the C++ sets \<^verbatim>\<open>error = true\<close>.
\<close>

definition compileInput ::
  "('cfg, 'rt, 'ent, 'dom, 'np) Env \<Rightarrow> CompileContext \<Rightarrow> CompileOptions \<Rightarrow>
     'cfg ResourcePathData \<Rightarrow> ('cfg, 'rt, 'ent) State \<Rightarrow>
     (bool \<times> ('cfg, 'rt, 'ent) State) option" where
  "compileInput env context options pathData st =
     (let st0 = (if verbose options
                 then diag_note (Some (source pathData)) ''processing'' st else st)
      in
        if resourceDir pathData = ''values'' then
          (let pathData1 = pathData\<lparr>extension := ''arsc''\<rparr>;
               outputFilename = buildIntermediateFilename pathData1
           in Some (compileTable env context options pathData1 outputFilename st0))
        else
          (let outputFilename = buildIntermediateFilename pathData in
           case parseResourceType env (resourceDir pathData) of
             Some ty \<Rightarrow>
               if ty \<noteq> kRaw env then
                 if extension pathData = ''xml'' then
                   compileXml env context options pathData outputFilename st0
                 else if extension pathData = ''png'' \<or> extension pathData = ''9.png'' then
                   compilePng env context options pathData outputFilename st0
                 else compileFile env context options pathData outputFilename st0
               else compileFile env context options pathData outputFilename st0
           | None \<Rightarrow>
               Some (False,
                 diag_error None
                   (''invalid file path '' @ [CHR 0x27] @ source_print env (source pathData) @
                    [CHR 0x27]) st0)))"

text \<open>The loop itself; \<open>error\<close> is the flag of the same name.\<close>

fun compileInputs ::
  "('cfg, 'rt, 'ent, 'dom, 'np) Env \<Rightarrow> CompileContext \<Rightarrow> CompileOptions \<Rightarrow>
     'cfg ResourcePathData list \<Rightarrow> bool \<Rightarrow> ('cfg, 'rt, 'ent) State \<Rightarrow>
     (bool \<times> ('cfg, 'rt, 'ent) State) option" where
  "compileInputs env context options [] error st = Some (error, st)"
| "compileInputs env context options (pathData # inputData) error st =
     (case compileInput env context options pathData st of
        None \<Rightarrow> None
      | Some (ok, st1) \<Rightarrow>
          compileInputs env context options inputData (error \<or> \<not> ok) st1)"

text \<open>\<^verbatim>\<open>compile\<close> from \<^verbatim>\<open>bool error = false\<close> to its end: the loop and the exit status.\<close>

definition compileAll ::
  "('cfg, 'rt, 'ent, 'dom, 'np) Env \<Rightarrow> CompileContext \<Rightarrow> CompileOptions \<Rightarrow>
     'cfg ResourcePathData list \<Rightarrow> ('cfg, 'rt, 'ent) State \<Rightarrow>
     (int \<times> ('cfg, 'rt, 'ent) State) option" where
  "compileAll env context options inputData st =
     (case compileInputs env context options inputData False st of
        None \<Rightarrow> None
      | Some (error, st1) \<Rightarrow> Some (if error then 1 else 0, st1))"

text \<open>
  \<^verbatim>\<open>compile\<close>: the exit status and the state the run leaves.  \<^verbatim>\<open>options.verbose\<close> is never
  assigned (the switch \<^verbatim>\<open>-v\<close> sets the context's flag), so it keeps its initial
  \<^verbatim>\<open>false\<close>.
\<close>

definition compile ::
  "('cfg, 'rt, 'ent, 'dom, 'np) Env \<Rightarrow> string list \<Rightarrow> (int \<times> ('cfg, 'rt, 'ent) State) option" where
  "compile env args =
     (case flags_parse env args of
        None \<Rightarrow> Some (1, initial)
      | Some flags \<Rightarrow>
          (let options =
                 \<lparr>outputPath = flag_o flags, resDir = flag_dir flags,
                  pseudolocalize = flag_pseudo_localize flags, legacyMode = flag_legacy flags,
                  verbose = False\<rparr>;
               context = \<lparr>mVerbose = flag_v flags\<rparr>
           in
             case resDir options of
               Some rootDir \<Rightarrow>
                 if flag_args flags \<noteq> [] then
                   Some (1, diag_error None ''files given but --dir specified'' initial)
                 else
                   (case loadInputFilesFromDir env rootDir [] initial of
                      (loaded, inputData, st) \<Rightarrow>
                        if \<not> loaded then Some (1, st)
                        else
                          (let st1 = st\<lparr>archive := archive st @
                                            [CreateZipFileArchiveWriter (outputPath options)]\<rparr>
                           in
                             if \<not> createZipFileArchiveWriter env (outputPath options)
                             then Some (1, st1)
                             else compileAll env context options inputData st1))
             | None \<Rightarrow>
                 (case collectPathData env (flag_args flags) [] of
                    Inl (errorStr, arg) \<Rightarrow>
                      Some (1, diag_error None (errorStr @ '' ('' @ arg @ '')'') initial)
                  | Inr inputData \<Rightarrow>
                      (let st1 = initial\<lparr>archive :=
                                   [CreateDirectoryArchiveWriter (outputPath options)]\<rparr>
                       in
                         if \<not> createDirectoryArchiveWriter env (outputPath options)
                         then Some (1, st1)
                         else compileAll env context options inputData st1))))"

subsection \<open>The batch, as the specification words it\<close>

text \<open>
  ``The driver runs each input to completion independently; per-input failure sets a sticky
  error flag but does not abort the batch'': every input is compiled in turn, each from the
  state the one before it left, whatever the results before it.  The function returns the
  result of each input, in order, and the last state (\<open>None\<close> when the behaviour of some
  input is undefined).
\<close>

fun runEveryInput ::
  "('cfg, 'rt, 'ent, 'dom, 'np) Env \<Rightarrow> CompileContext \<Rightarrow> CompileOptions \<Rightarrow>
     'cfg ResourcePathData list \<Rightarrow> ('cfg, 'rt, 'ent) State \<Rightarrow>
     (bool list \<times> ('cfg, 'rt, 'ent) State) option" where
  "runEveryInput env context options [] st = Some ([], st)"
| "runEveryInput env context options (pathData # inputData) st =
     (case compileInput env context options pathData st of
        None \<Rightarrow> None
      | Some (ok, st1) \<Rightarrow>
          (case runEveryInput env context options inputData st1 of
             None \<Rightarrow> None
           | Some (oks, st2) \<Rightarrow> Some (ok # oks, st2)))"

subsection \<open>A small world for concrete runs\<close>

text \<open>
  One environment on which the functions above can be run: five files, a PNG decoder that
  gives a picture of three rows of three pixels, an encoder whose output is longer than the
  files, a legacy cruncher that fails on one of them, and an archive writer that never does.
\<close>

definition sample_files :: "string \<Rightarrow> string + string" where
  "sample_files p =
     (if p = ''res/values/strings.xml'' then Inr ''<resources/>''
      else if p = ''res/layout/main.xml'' then Inr ''<View/>''
      else if p = ''res/drawable/photo.png'' then Inr ''PNG''
      else if p = ''res/drawable-hdpi/icon.9.png'' then Inr ''PNG''
      else if p = ''res/raw/data.bin'' then Inr ''raw''
      else Inl ''No such file or directory'')"

definition sample_image :: Image where
  "sample_image =
     \<lparr>width = 3, height = 3, rows = [0, 1, 2],
      mem = (\<lambda>a. if a < 3 then Some (map (\<lambda>i. of_nat (16 * a + i)) [0..<12]) else None)\<rparr>"

definition sample_env :: "(unit, string, unit, string, string) Env" where
  "sample_env =
     \<lparr>flags_parse =
        (\<lambda>args. Some \<lparr>flag_o = ''out'', flag_dir = None, flag_pseudo_localize = False,
                       flag_legacy = False, flag_v = (''-v'' \<in> set args),
                       flag_args = filter (\<lambda>a. a \<noteq> ''-v'') args\<rparr>),
      configDescription_parse = (\<lambda>s. if s = ''hdpi'' then Some () else None),
      configDescription_default = (),
      parseResourceType =
        (\<lambda>s. if s = ''drawable'' \<or> s = ''layout'' \<or> s = ''raw'' then Some s else None),
      kRaw = ''raw'',
      opendir = (\<lambda>p. Inl ''No such file or directory''),
      isDirectory = (\<lambda>p. False),
      appendPath = (\<lambda>base part. base @ ''/'' @ part),
      ifstream = sample_files,
      readFileToString = sample_files,
      mmapPath = sample_files,
      resourceParser_parse = (\<lambda>src cfg opts content. Some \<lparr>packages = []\<rparr>),
      pseudolocaleGenerator_consume = (\<lambda>context table. Some table),
      createPackage =
        (\<lambda>n table. table\<lparr>packages := packages table @
                                 [\<lparr>pkg_name = n, pkg_id = None, pkg_types = ()\<rparr>]\<rparr>),
      xml_inflate =
        (\<lambda>content src.
           Some \<lparr>xml_file = \<lparr>file_name = \<lparr>package = [], rtype = [], entry = []\<rparr>,
                              file_config = (), file_source = src\<rparr>,
                 xml_root = content\<rparr>),
      xmlIdCollector_consume = (\<lambda>context doc. Some doc),
      inlineXmlFormatParser_consume =
        (\<lambda>context doc. Some (doc, [doc\<lparr>xml_root := ''<shape/>''\<rparr>])),
      xmlFlattener_consume = (\<lambda>context doc. Some (xml_root doc)),
      readPng = (\<lambda>context content. Some sample_image),
      pngChunkFilter_ByteCount = (\<lambda>context content. int (length content)),
      pngChunkFilter_copy = (\<lambda>content. content),
      ninePatch_create = (\<lambda>img. Inr ''9-patch''),
      ninePatch_print = (\<lambda>np. np),
      writePng = (\<lambda>context img np. Some ''re-encoded PNG''),
      png_process =
        (\<lambda>src content.
           if path src = ''res/drawable/photo.png'' then None else Some (''legacy '' @ content)),
      source_print = path,
      createZipFileArchiveWriter = (\<lambda>p. True),
      createDirectoryArchiveWriter = (\<lambda>p. True),
      startEntryOk = (\<lambda>calls p. True),
      writeOk = (\<lambda>calls x. True),
      finishEntryOk = (\<lambda>calls. True)\<rparr>"

definition sample_options :: CompileOptions where
  "sample_options =
     \<lparr>outputPath = ''out'', resDir = None, pseudolocalize = False, legacyMode = False,
      verbose = False\<rparr>"

text \<open>The descriptor the classifier gives for a path of the sample world.\<close>

definition sample_input :: "string \<Rightarrow> unit ResourcePathData" where
  "sample_input p =
     (case extractResourcePathData (configDescription_parse sample_env)
             (configDescription_default sample_env) p of
        Inr pathData \<Rightarrow> pathData
      | Inl err \<Rightarrow>
          \<lparr>source = Source_of p, resourceDir = [], name = [], extension = [], configStr = [],
           config = ()\<rparr>)"

section \<open>Properties\<close>

subsection \<open>Paths and entry names\<close>

lemma util_split_ne: "util_split s sep \<noteq> []"
  by (induction s) (auto split: list.splits)

lemma util_split_single: "sep \<notin> set s \<Longrightarrow> util_split s sep = [s]"
  by (induction s) auto

lemma util_split_append: "util_split (a @ sep # b) sep = util_split a sep @ util_split b sep"
  by (induction a) (auto split: list.splits simp: util_split_ne)

lemma find_char_notin: "c \<notin> set s \<Longrightarrow> find_char s c = None"
  by (induction s) auto

lemma find_char_first: "c \<notin> set a \<Longrightarrow> find_char (a @ c # b) c = Some (length a)"
  by (induction a) auto

lemma last_two:
  assumes "\<not> length (xs :: 'a list) < 2"
  obtains pre a b where "xs = pre @ [a, b]"
proof -
  from assms have "xs \<noteq> []" by auto
  then obtain ys b where xs: "xs = ys @ [b]" by (metis rev_exhaust)
  with assms have "ys \<noteq> []" by auto
  then obtain pre a where "ys = pre @ [a]" by (metis rev_exhaust)
  with xs that show thesis by simp
qed

lemma extractResourcePathData_parts:
  assumes "util_split p sDirSep = pre @ [dir, filename]"
  shows "extractResourcePathData parse dflt p =
     (let name_ext =
            (case find_char filename (CHR ''.'') of
               None \<Rightarrow> (filename, [])
             | Some dotPos \<Rightarrow>
                 (take dotPos filename, drop (dotPos + 1) filename))
      in case find_char dir (CHR ''-'') of
           None \<Rightarrow>
             Inr \<lparr>source = Source_of p, resourceDir = dir, name = fst name_ext,
                  extension = snd name_ext, configStr = [], config = dflt\<rparr>
         | Some dashPos \<Rightarrow>
             (case parse (drop (dashPos + 1) dir) of
                None \<Rightarrow>
                  Inl (''invalid configuration '' @ [CHR 0x27] @ drop (dashPos + 1) dir @ [CHR 0x27])
              | Some cfg \<Rightarrow>
                  Inr \<lparr>source = Source_of p, resourceDir = take dashPos dir,
                       name = fst name_ext, extension = snd name_ext,
                       configStr = drop (dashPos + 1) dir, config = cfg\<rparr>))"
  by (simp add: extractResourcePathData_def assms Let_def substr_def nth_append
           split: option.splits)

lemma extract_name_extension:
  assumes ok: "extractResourcePathData parse dflt p = Inr d"
    and fn: "last (util_split p sDirSep) = n @ ''.'' @ e"
    and n: "CHR ''.'' \<notin> set n"
  shows "name d = n \<and> extension d = e"
proof -
  have "\<not> length (util_split p sDirSep) < 2"
    using ok by (auto simp: extractResourcePathData_def Let_def)
  then obtain pre dir filename where parts: "util_split p sDirSep = pre @ [dir, filename]"
    by (rule last_two)
  with fn have fname: "filename = n @ CHR ''.'' # e" by simp
  have dot: "find_char (n @ CHR ''.'' # e) (CHR ''.'') = Some (length n)"
    using n by (rule find_char_first)
  show ?thesis
    using ok unfolding extractResourcePathData_parts [OF parts] fname dot
    by (auto simp: Let_def split: option.splits)
qed

text \<open>
  C4.  The classifier splits the last component of the path at its first dot: when the
  component is \<open>n @ ''.'' @ e\<close> and \<open>n\<close> has no dot, every descriptor the classifier
  returns has the name \<open>n\<close> and the extension \<open>e\<close>.  In particular a path whose last
  component is \<open>foo.9.png\<close> gets the name \<open>foo\<close> and the extension \<open>9.png\<close>, not \<open>png\<close>.
\<close>

theorem extractResourcePathData_first_dot:
  assumes "CHR ''.'' \<notin> set n"
  shows "(extractResourcePathData parse dflt p = Inr d \<and>
            last (util_split p sDirSep) = n @ ''.'' @ e \<longrightarrow>
          name d = n \<and> extension d = e) \<and>
         (extractResourcePathData parse dflt (pre @ ''/foo.9.png'') = Inr d' \<longrightarrow>
          name d' = ''foo'' \<and> extension d' = ''9.png'')"
proof -
  have "last (util_split (pre @ ''/foo.9.png'') sDirSep) = ''foo'' @ ''.'' @ ''9.png''"
    using util_split_append [of pre "CHR ''/''" "''foo.9.png''"]
    by (simp add: sDirSep_def)
  then have "extractResourcePathData parse dflt (pre @ ''/foo.9.png'') = Inr d' \<Longrightarrow>
      name d' = ''foo'' \<and> extension d' = ''9.png''"
    by (rule extract_name_extension [rotated]) simp_all
  then show ?thesis
    using assms extract_name_extension [of parse dflt p d n e] by blast
qed

theorem extractResourcePathData_first_dot_witness:
  "extractResourcePathData (\<lambda>s. None) () ''res/drawable/foo.9.png'' =
     Inr \<lparr>source = Source_of ''res/drawable/foo.9.png'', resourceDir = ''drawable'',
          name = ''foo'', extension = ''9.png'', configStr = [], config = ()\<rparr> \<and>
   last (util_split ''res/drawable/foo.9.png'' sDirSep) = ''foo'' @ ''.'' @ ''9.png'' \<and>
   CHR ''.'' \<notin> set ''foo'' \<and>
   name \<lparr>source = Source_of ''res/drawable/foo.9.png'', resourceDir = ''drawable'',
          name = ''foo'', extension = ''9.png'', configStr = [], config = ()\<rparr> = ''foo''"
  using extractResourcePathData_first_dot [of "''foo''" "\<lambda>s. None" "()" "''res/drawable/foo.9.png''"
      "\<lparr>source = Source_of ''res/drawable/foo.9.png'', resourceDir = ''drawable'',
          name = ''foo'', extension = ''9.png'', configStr = [], config = ()\<rparr>" "''9.png''"]
  by (simp add: extractResourcePathData_def sDirSep_def substr_def)


lemma find_char_Some:
  "find_char s c = Some i \<Longrightarrow> i < length s \<and> s ! i = c"
proof (induction s arbitrary: i)
  case Nil
  then show ?case by simp
next
  case (Cons x xs)
  show ?case
  proof (cases "x = c")
    case True
    with Cons.prems show ?thesis by simp
  next
    case False
    with Cons.prems obtain j where j: "find_char xs c = Some j" "i = Suc j" by auto
    from Cons.IH [OF j(1)] j(2) show ?thesis by simp
  qed
qed

lemma find_char_bound:
  "\<exists>i. find_char (a @ c # b) c = Some i \<and> i \<le> length a"
  by (induction a) auto

lemma split_res_path:
  assumes "CHR ''/'' \<notin> set dir" and "CHR ''/'' \<notin> set fname"
  shows "util_split (''res/'' @ dir @ ''/'' @ fname) sDirSep = [''res''] @ [dir, fname]"
proof -
  have "util_split (''res'' @ CHR ''/'' # (dir @ CHR ''/'' # fname)) (CHR ''/'') =
      util_split ''res'' (CHR ''/'') @ util_split dir (CHR ''/'') @ util_split fname (CHR ''/'')"
    by (simp only: util_split_append)
  then show ?thesis
    using assms by (simp add: util_split_single sDirSep_def)
qed

lemma find_char_take_drop:
  assumes "find_char s c = Some i"
  shows "take i s @ c # drop (Suc i) s = s"
proof -
  from find_char_Some [OF assms] have "i < length s" and "s ! i = c" by simp_all
  then show ?thesis by (metis id_take_nth_drop)
qed

lemma split_res_path_eq:
  assumes "CHR ''/'' \<notin> set dir" and "CHR ''/'' \<notin> set fname"
    and "p = ''res/'' @ dir @ ''/'' @ fname"
  shows "util_split p sDirSep = [''res''] @ [dir, fname]"
  using split_res_path [OF assms(1,2)] assms(3) by simp

lemma entry_name_plain:
  assumes dir: "CHR ''/'' \<notin> set dir" and fname: "CHR ''/'' \<notin> set fname"
    and p: "p = ''res/'' @ dir @ ''/'' @ fname"
    and dot: "find_char fname (CHR ''.'') = Some i" and ext: "drop (Suc i) fname \<noteq> []"
    and dash: "find_char dir (CHR ''-'') = None"
  shows "map_sum id buildIntermediateFilename (extractResourcePathData parse dflt p) =
         Inr (dir @ ''_'' @ fname @ ''.flat'')"
proof -
  have "take i fname @ CHR ''.'' # drop (Suc i) fname = fname"
    using dot by (rule find_char_take_drop)
  then have "take i fname @ CHR ''.'' # drop (Suc i) fname @ ''.flat'' = fname @ ''.flat''"
    by (metis append_Cons append_assoc)
  then show ?thesis
    using ext
    by (simp add: extractResourcePathData_parts [OF split_res_path_eq [OF dir fname p]]
          dot dash buildIntermediateFilename_def)
qed

lemma entry_name_qualified:
  assumes dir: "CHR ''/'' \<notin> set dir" and fname: "CHR ''/'' \<notin> set fname"
    and p: "p = ''res/'' @ dir @ ''/'' @ fname"
    and dot: "find_char fname (CHR ''.'') = Some i" and ext: "drop (Suc i) fname \<noteq> []"
    and dash: "find_char dir (CHR ''-'') = Some j" and qual: "drop (Suc j) dir \<noteq> []"
    and cfg: "parse (drop (Suc j) dir) = Some c"
  shows "map_sum id buildIntermediateFilename (extractResourcePathData parse dflt p) =
         Inr (dir @ ''_'' @ fname @ ''.flat'')"
proof -
  have "take i fname @ CHR ''.'' # drop (Suc i) fname = fname"
    using dot by (rule find_char_take_drop)
  then have f: "take i fname @ CHR ''.'' # drop (Suc i) fname @ ''.flat'' = fname @ ''.flat''"
    by (metis append_Cons append_assoc)
  have "take j dir @ CHR ''-'' # drop (Suc j) dir = dir"
    using dash by (rule find_char_take_drop)
  then have d: "take j dir @ CHR ''-'' # drop (Suc j) dir @ rest = dir @ rest" for rest
    by (metis append_Cons append_assoc)
  show ?thesis
    using ext qual
    by (simp add: extractResourcePathData_parts [OF split_res_path_eq [OF dir fname p]]
          dot dash cfg buildIntermediateFilename_def f d)
qed

lemma first_dot_of_name_ext:
  assumes "ext \<noteq> []" and "fname = nm @ ''.'' @ ext"
  shows "\<exists>i. find_char fname (CHR ''.'') = Some i \<and> drop (Suc i) fname \<noteq> []"
proof -
  obtain i where i: "find_char fname (CHR ''.'') = Some i" "i \<le> length nm"
    using find_char_bound [of nm "CHR ''.''" ext] assms(2) by auto
  from assms(1) obtain x xs where "ext = x # xs" by (cases ext) auto
  with i(2) assms(2) have "Suc i < length fname" by simp
  then have "drop (Suc i) fname \<noteq> []" by simp
  with i(1) show ?thesis by blast
qed

text \<open>
  C9.  For a path \<open>res/type-qual/name.ext\<close> (no separator inside the four parts, no dash in
  the type, \<open>qual\<close> and \<open>ext\<close> not empty, \<open>qual\<close> a configuration that parses) the entry
  name built from the classified path is \<open>type-qual_name.ext.flat\<close>; for a path
  \<open>res/type/name.ext\<close> it is \<open>type_name.ext.flat\<close>, with no dash before the underscore.
\<close>

theorem buildIntermediateFilename_roundtrip:
  assumes "CHR ''/'' \<notin> set ty" and "CHR ''-'' \<notin> set ty"
    and "CHR ''/'' \<notin> set nm" and "CHR ''/'' \<notin> set ext" and "ext \<noteq> []"
  shows "(CHR ''/'' \<notin> set qual \<and> qual \<noteq> [] \<and> parse qual \<noteq> None \<longrightarrow>
            map_sum id buildIntermediateFilename
              (extractResourcePathData parse dflt
                 (''res/'' @ ty @ ''-'' @ qual @ ''/'' @ nm @ ''.'' @ ext)) =
            Inr (ty @ ''-'' @ qual @ ''_'' @ nm @ ''.'' @ ext @ ''.flat'')) \<and>
         map_sum id buildIntermediateFilename
           (extractResourcePathData parse dflt (''res/'' @ ty @ ''/'' @ nm @ ''.'' @ ext)) =
         Inr (ty @ ''_'' @ nm @ ''.'' @ ext @ ''.flat'')"
proof -
  define fname where "fname = nm @ ''.'' @ ext"
  obtain i where i: "find_char fname (CHR ''.'') = Some i" "drop (Suc i) fname \<noteq> []"
    using first_dot_of_name_ext [OF assms(5) fname_def] by blast
  have f: "CHR ''/'' \<notin> set fname" using assms by (simp add: fname_def)
  have "map_sum id buildIntermediateFilename
          (extractResourcePathData parse dflt (''res/'' @ ty @ ''/'' @ fname)) =
        Inr (ty @ ''_'' @ fname @ ''.flat'')"
    by (rule entry_name_plain [OF assms(1) f refl i find_char_notin [OF assms(2)]])
  then have plain: "map_sum id buildIntermediateFilename
          (extractResourcePathData parse dflt (''res/'' @ ty @ ''/'' @ nm @ ''.'' @ ext)) =
        Inr (ty @ ''_'' @ nm @ ''.'' @ ext @ ''.flat'')"
    by (simp add: fname_def)
  have with_qual: "map_sum id buildIntermediateFilename
          (extractResourcePathData parse dflt
             (''res/'' @ ty @ ''-'' @ qual @ ''/'' @ nm @ ''.'' @ ext)) =
        Inr (ty @ ''-'' @ qual @ ''_'' @ nm @ ''.'' @ ext @ ''.flat'')"
    if q: "CHR ''/'' \<notin> set qual" "qual \<noteq> []" "parse qual \<noteq> None"
  proof -
    define dir where "dir = ty @ ''-'' @ qual"
    have d: "CHR ''/'' \<notin> set dir" using assms(1) q(1) by (simp add: dir_def)
    have dash: "find_char dir (CHR ''-'') = Some (length ty)"
      using find_char_first [OF assms(2), of qual] by (simp add: dir_def)
    have rest: "drop (Suc (length ty)) dir = qual" by (simp add: dir_def)
    from q(3) obtain c where c: "parse (drop (Suc (length ty)) dir) = Some c"
      unfolding rest by auto
    have "map_sum id buildIntermediateFilename
          (extractResourcePathData parse dflt (''res/'' @ dir @ ''/'' @ fname)) =
        Inr (dir @ ''_'' @ fname @ ''.flat'')"
    proof (rule entry_name_qualified [OF d f refl i dash])
      show "drop (Suc (length ty)) dir \<noteq> []" using q(2) by (simp add: rest)
      show "parse (drop (Suc (length ty)) dir) = Some c" by (rule c)
    qed
    then show ?thesis by (simp add: dir_def fname_def)
  qed
  show ?thesis using plain with_qual by blast
qed

theorem buildIntermediateFilename_roundtrip_witness:
  "map_sum id buildIntermediateFilename
     (extractResourcePathData (\<lambda>s. if s = ''hdpi'' then Some () else None) ()
        ''res/drawable-hdpi/icon.9.png'') = Inr ''drawable-hdpi_icon.9.png.flat'' \<and>
   map_sum id buildIntermediateFilename
     (extractResourcePathData (\<lambda>s. if s = ''hdpi'' then Some () else None) ()
        ''res/drawable/icon.9.png'') = Inr ''drawable_icon.9.png.flat''"
  using buildIntermediateFilename_roundtrip [of "''drawable''" "''icon''" "''9.png''" "''hdpi''"
      "\<lambda>s. if s = ''hdpi'' then Some () else None" "()"]
  by simp


subsection \<open>The values compiler\<close>

lemma find_str_None_iff:
  "find_str s pat = None \<longleftrightarrow> \<not> (\<exists>a b. s = a @ pat @ b)"
proof (induction s)
  case Nil
  then show ?case by auto
next
  case (Cons x xs)
  show ?case
  proof (cases "take (length pat) (x # xs) = pat")
    case True
    then have "x # xs = [] @ pat @ drop (length pat) (x # xs)"
      by (metis append_Nil append_take_drop_id)
    then have "\<exists>a b. x # xs = a @ pat @ b" by blast
    with True show ?thesis by simp
  next
    case False
    have "(\<exists>a b. x # xs = a @ pat @ b) \<longleftrightarrow> (\<exists>a b. xs = a @ pat @ b)"
    proof
      assume "\<exists>a b. x # xs = a @ pat @ b"
      then obtain a b where ab: "x # xs = a @ pat @ b" by blast
      show "\<exists>a b. xs = a @ pat @ b"
      proof (cases a)
        case Nil
        with ab have "take (length pat) (x # xs) = pat" by simp
        with False show ?thesis by simp
      next
        case (Cons y ys)
        with ab have "xs = ys @ pat @ b" by simp
        then show ?thesis by blast
      qed
    next
      assume "\<exists>a b. xs = a @ pat @ b"
      then obtain a b where "xs = a @ pat @ b" by blast
      then have "x # xs = (x # a) @ pat @ b" by simp
      then show "\<exists>a b. x # xs = a @ pat @ b" by blast
    qed
    with False Cons.IH show ?thesis by simp
  qed
qed

lemma tableParserOptions_translatable:
  "translatable (tableParserOptions options pathData) \<longleftrightarrow>
     \<not> (\<exists>a b. name pathData = a @ ''donottranslate'' @ b)"
  by (simp add: tableParserOptions_def find_str_None_iff)

text \<open>
  C5.  The default translatable flag is \<open>False\<close> exactly when the descriptor's \<open>name\<close>, the
  file name up to its first dot, contains \<open>donottranslate\<close> (the lemma above).  For the input
  \<open>res/values/strings.donottranslate.xml\<close> the file name contains \<open>donottranslate\<close>, after
  its first dot, and the flag the parser receives is \<open>True\<close>.
\<close>

theorem donottranslate_after_first_dot:
  "extractResourcePathData (\<lambda>s. None) () ''res/values/strings.donottranslate.xml'' =
     Inr \<lparr>source = Source_of ''res/values/strings.donottranslate.xml'', resourceDir = ''values'',
          name = ''strings'', extension = ''donottranslate.xml'', configStr = [], config = ()\<rparr> \<and>
   ''strings.donottranslate.xml'' = ''strings.'' @ ''donottranslate'' @ ''.xml'' \<and>
   translatable
     (tableParserOptions
        \<lparr>outputPath = ''out'', resDir = None, pseudolocalize = False, legacyMode = False,
         verbose = False\<rparr>
        \<lparr>source = Source_of ''res/values/strings.donottranslate.xml'', resourceDir = ''values'',
         name = ''strings'', extension = ''arsc'', configStr = [], config = ()\<rparr>)"
  by (simp add: extractResourcePathData_def sDirSep_def substr_def tableParserOptions_def)


subsection \<open>What a successful compilation writes\<close>

lemmas effect_defs =
  startEntry_def finishEntry_def streamWrite_def diag_error_def diag_note_def file_access_def

lemma writeHeaderAndBufferToWriter_True:
  assumes "writeHeaderAndBufferToWriter env outPath fl buffer st = (True, st')"
  shows "archive st' = archive st @
           [StartEntry outPath, Write (WriteLittleEndian32 1), Write (WriteCompiledFile fl),
            Write (WriteData buffer), FinishEntry]"
  using assms
  by (auto simp: writeHeaderAndBufferToWriter_def effect_defs split: if_splits)

lemma writeHeaderAndMmapToWriter_True:
  assumes "writeHeaderAndMmapToWriter env outPath fl fmap st = (True, st')"
  shows "archive st' = archive st @
           [StartEntry outPath, Write (WriteLittleEndian32 1), Write (WriteCompiledFile fl),
            Write (WriteData fmap), FinishEntry]"
  using assms
  by (auto simp: writeHeaderAndMmapToWriter_def effect_defs split: if_splits)

lemma compileTable_True:
  assumes "compileTable env context options pathData outPath st = (True, st')"
  shows "\<exists>fin table table1.
           ifstream env (path (source pathData)) = Inr fin \<and>
           resourceParser_parse env (source pathData) (config pathData)
             (tableParserOptions options pathData) fin = Some table \<and>
           (if pseudolocalize options then pseudolocaleGenerator_consume env context table
            else Some table) = Some table1 \<and>
           archive st' = archive st @
             [StartEntry outPath,
              Write (SerializeTable
                (assignPackageIds context
                   (createPackage env (getCompilationPackage context) table1))),
              FinishEntry]"
  using assms
  by (auto simp: compileTable_def effect_defs Let_def split: if_splits sum.splits option.splits)


lemma flattenXmlToOutStream_True:
  assumes "flattenXmlToOutStream env context outPath doc (h, st) = (True, h', st')"
  shows "\<exists>payload. xmlFlattener_consume env context doc = Some payload \<and>
           archive st' = archive st @
             [Write (WriteCompiledFile (xml_file doc)), Write (WriteData payload)]"
  using assms
  by (auto simp: flattenXmlToOutStream_def effect_defs split: if_splits option.splits)

lemma flattenInlineDocuments_True:
  assumes "flattenInlineDocuments env context outPath docs (h, st) = (True, h', st')"
  shows "\<exists>payloads. map (xmlFlattener_consume env context) docs = map Some payloads \<and>
           archive st' = archive st @
             concat (map2 (\<lambda>doc payload.
                       [Write (WriteCompiledFile (xml_file doc)), Write (WriteData payload)])
                     docs payloads)"
  using assms
proof (induction docs arbitrary: h st)
  case Nil
  then show ?case by simp
next
  case (Cons doc docs)
  from Cons.prems obtain h1 st1 where
    one: "flattenXmlToOutStream env context outPath doc (h, st) = (True, h1, st1)" and
    more: "flattenInlineDocuments env context outPath docs (h1, st1) = (True, h', st')"
    by (auto split: prod.splits if_splits)
  from flattenXmlToOutStream_True [OF one] obtain payload where
    p: "xmlFlattener_consume env context doc = Some payload"
       "archive st1 = archive st @
          [Write (WriteCompiledFile (xml_file doc)), Write (WriteData payload)]"
    by blast
  from Cons.IH [OF more] obtain payloads where
    ps: "map (xmlFlattener_consume env context) docs = map Some payloads"
        "archive st' = archive st1 @
           concat (map2 (\<lambda>doc payload.
                     [Write (WriteCompiledFile (xml_file doc)), Write (WriteData payload)])
                   docs payloads)"
    by blast
  have "map (xmlFlattener_consume env context) (doc # docs) = map Some (payload # payloads)"
    using p(1) ps(1) by simp
  moreover have "archive st' = archive st @
      concat (map2 (\<lambda>doc payload.
                [Write (WriteCompiledFile (xml_file doc)), Write (WriteData payload)])
              (doc # docs) (payload # payloads))"
    using p(2) ps(2) by simp
  ultimately show ?case by blast
qed

lemma compileXml_True:
  assumes "compileXml env context options pathData outPath st = Some (True, st')"
  shows "\<exists>fin xmlRes0 ty xmlRes2 primary inlineDocuments payloads.
           ifstream env (path (source pathData)) = Inr fin \<and>
           xml_inflate env fin (source pathData) = Some xmlRes0 \<and>
           parseResourceType env (resourceDir pathData) = Some ty \<and>
           xmlIdCollector_consume env context
             (xmlRes0\<lparr>xml_file := (xml_file xmlRes0)
                \<lparr>file_name := \<lparr>package = [], rtype = ty, entry = name pathData\<rparr>,
                 file_config := config pathData,
                 file_source := source pathData\<rparr>\<rparr>) = Some xmlRes2 \<and>
           inlineXmlFormatParser_consume env context xmlRes2 = Some (primary, inlineDocuments) \<and>
           map (xmlFlattener_consume env context) (primary # inlineDocuments) =
             map Some payloads \<and>
           archive st' = archive st @
             [StartEntry outPath,
              Write (WriteLittleEndian32 (of_nat (length inlineDocuments + 1)))] @
             concat (map2 (\<lambda>doc payload.
                       [Write (WriteCompiledFile (xml_file doc)), Write (WriteData payload)])
                     (primary # inlineDocuments) payloads) @
             [FinishEntry]"
proof -
  from assms obtain fin where fin: "ifstream env (path (source pathData)) = Inr fin"
    by (auto simp: compileXml_def Let_def split: sum.splits)
  from assms fin obtain xmlRes0 where x0: "xml_inflate env fin (source pathData) = Some xmlRes0"
    by (auto simp: compileXml_def Let_def split: option.splits)
  from assms fin x0 obtain ty where ty: "parseResourceType env (resourceDir pathData) = Some ty"
    by (auto simp: compileXml_def Let_def split: option.splits)
  define xmlRes1 where "xmlRes1 = xmlRes0\<lparr>xml_file := (xml_file xmlRes0)
                \<lparr>file_name := \<lparr>package = [], rtype = ty, entry = name pathData\<rparr>,
                 file_config := config pathData,
                 file_source := source pathData\<rparr>\<rparr>"
  from assms fin x0 ty obtain xmlRes2 where
    x2: "xmlIdCollector_consume env context xmlRes1 = Some xmlRes2"
    by (auto simp: compileXml_def Let_def xmlRes1_def split: option.splits)
  from assms fin x0 ty x2 obtain primary inlineDocuments where
    x3: "inlineXmlFormatParser_consume env context xmlRes2 = Some (primary, inlineDocuments)"
    by (auto simp: compileXml_def Let_def xmlRes1_def split: option.splits)
  define st1 where "st1 = file_access (Ifstream (path (source pathData)))
     (if mVerbose context then diag_note (Some (source pathData)) ''compiling XML'' st else st)"
  have a1: "archive st1 = archive st"
    by (simp add: st1_def effect_defs)
  define st2 where "st2 = snd (startEntry env outPath st1)"
  have a2: "archive st2 = archive st @ [StartEntry outPath]"
    by (simp add: st2_def startEntry_def a1)
  define out0 where "out0 = streamWrite env
      (WriteLittleEndian32 (of_nat (1 + length inlineDocuments))) (False, st2)"
  have a3: "archive (snd out0) = archive st @
      [StartEntry outPath, Write (WriteLittleEndian32 (of_nat (length inlineDocuments + 1)))]"
    by (simp add: out0_def streamWrite_def a2)
  from assms fin x0 ty x2 x3 have rest:
    "fst (startEntry env outPath st1) \<and>
     (case flattenXmlToOutStream env context outPath primary out0 of
        (ok1, out1) \<Rightarrow>
          ok1 \<and>
          (case flattenInlineDocuments env context outPath inlineDocuments out1 of
             (ok2, out2) \<Rightarrow>
               ok2 \<and> finishEntry env (snd out2) = (True, st')))"
    by (auto simp: compileXml_def Let_def xmlRes1_def st1_def st2_def out0_def
             split: if_splits prod.splits)
  then obtain h1 s1 h2 s2 where
    f1: "flattenXmlToOutStream env context outPath primary (fst out0, snd out0) = (True, h1, s1)" and
    f2: "flattenInlineDocuments env context outPath inlineDocuments (h1, s1) = (True, h2, s2)" and
    f3: "finishEntry env s2 = (True, st')"
    by (auto split: prod.splits)
  from flattenXmlToOutStream_True [OF f1] obtain payload where
    p: "xmlFlattener_consume env context primary = Some payload"
       "archive s1 = archive (snd out0) @
          [Write (WriteCompiledFile (xml_file primary)), Write (WriteData payload)]"
    by blast
  from flattenInlineDocuments_True [OF f2] obtain payloads where
    ps: "map (xmlFlattener_consume env context) inlineDocuments = map Some payloads"
        "archive s2 = archive s1 @
           concat (map2 (\<lambda>doc payload.
                     [Write (WriteCompiledFile (xml_file doc)), Write (WriteData payload)])
                   inlineDocuments payloads)"
    by blast
  from f3 have a5: "archive st' = archive s2 @ [FinishEntry]"
    by (auto simp: finishEntry_def)
  have m: "map (xmlFlattener_consume env context) (primary # inlineDocuments) =
      map Some (payload # payloads)"
    using p(1) ps(1) by simp
  have "archive st' = archive st @
             [StartEntry outPath,
              Write (WriteLittleEndian32 (of_nat (length inlineDocuments + 1)))] @
             concat (map2 (\<lambda>doc payload.
                       [Write (WriteCompiledFile (xml_file doc)), Write (WriteData payload)])
                     (primary # inlineDocuments) (payload # payloads)) @
             [FinishEntry]"
    using a3 a5 p(2) ps(2) by simp
  with fin x0 ty x2 x3 m show ?thesis
    unfolding xmlRes1_def by blast
qed


lemma compileFile_True:
  assumes "compileFile env context options pathData outPath st = Some (True, st')"
  shows "\<exists>ty f.
           parseResourceType env (resourceDir pathData) = Some ty \<and>
           mmapPath env (path (source pathData)) = Inr f \<and>
           archive st' = archive st @
             [StartEntry outPath, Write (WriteLittleEndian32 1),
              Write (WriteCompiledFile
                \<lparr>file_name = \<lparr>package = [], rtype = ty, entry = name pathData\<rparr>,
                 file_config = config pathData, file_source = source pathData\<rparr>),
              Write (WriteData f), FinishEntry]"
proof -
  from assms obtain ty where ty: "parseResourceType env (resourceDir pathData) = Some ty"
    by (auto simp: compileFile_def Let_def split: option.splits)
  from assms ty obtain f where f: "mmapPath env (path (source pathData)) = Inr f"
    by (auto simp: compileFile_def Let_def split: sum.splits)
  define st1 where "st1 = file_access (MmapPath (path (source pathData)))
     (if mVerbose context then diag_note (Some (source pathData)) ''compiling file'' st else st)"
  have a1: "archive st1 = archive st" by (simp add: st1_def effect_defs)
  from assms ty f have "writeHeaderAndMmapToWriter env outPath
      \<lparr>file_name = \<lparr>package = [], rtype = ty, entry = name pathData\<rparr>,
       file_config = config pathData, file_source = source pathData\<rparr> f st1 = (True, st')"
    by (simp add: compileFile_def Let_def st1_def)
  from writeHeaderAndMmapToWriter_True [OF this] ty f a1 show ?thesis by simp
qed

lemma compilePng_encode_True:
  assumes "compilePng_encode env context pathData outPath resFile content img ninePatch st =
             (True, st')"
  shows "\<exists>crunched.
           writePng env context img ninePatch = Some crunched \<and>
           (mVerbose context \<longrightarrow> png_process env (source pathData) content \<noteq> None) \<and>
           archive st' = archive st @
             [StartEntry outPath, Write (WriteLittleEndian32 1), Write (WriteCompiledFile resFile),
              Write (WriteData
                (if ninePatch \<noteq> None \<or>
                    int (length crunched) \<le> pngChunkFilter_ByteCount env context content
                 then crunched else pngChunkFilter_copy env content)),
              FinishEntry]"
proof -
  from assms obtain crunched where c: "writePng env context img ninePatch = Some crunched"
    by (auto simp: compilePng_encode_def split: option.splits)
  define buffer where "buffer =
     (if ninePatch \<noteq> None \<or>
         int (length crunched) \<le> pngChunkFilter_ByteCount env context content
      then crunched else pngChunkFilter_copy env content)"
  from assms c obtain st1 where
    w: "writeHeaderAndBufferToWriter env outPath resFile buffer st1 = (True, st')" and
    a: "archive st1 = archive st" and
    v: "mVerbose context \<longrightarrow> png_process env (source pathData) content \<noteq> None"
    by (auto simp: compilePng_encode_def Let_def buffer_def diag_note_def
             split: option.splits if_splits)
  from writeHeaderAndBufferToWriter_True [OF w] a c v show ?thesis
    unfolding buffer_def by auto
qed

lemma compilePng_True:
  assumes "compilePng env context options pathData outPath st = Some (True, st')"
  shows "\<exists>ty content img.
           parseResourceType env (resourceDir pathData) = Some ty \<and>
           readFileToString env (path (source pathData)) = Inr content \<and>
           readPng env context content = Some img \<and>
           (mVerbose context \<longrightarrow> png_process env (source pathData) content \<noteq> None) \<and>
           (if extension pathData = ''9.png'' then
              \<exists>np stripped crunched.
                ninePatch_create env img = Inr np \<and> removeBorder img = Some stripped \<and>
                writePng env context stripped (Some np) = Some crunched \<and>
                archive st' = archive st @
                  [StartEntry outPath, Write (WriteLittleEndian32 1),
                   Write (WriteCompiledFile
                     \<lparr>file_name = \<lparr>package = [], rtype = ty, entry = name pathData\<rparr>,
                      file_config = config pathData, file_source = source pathData\<rparr>),
                   Write (WriteData crunched), FinishEntry]
            else
              \<exists>crunched.
                writePng env context img None = Some crunched \<and>
                archive st' = archive st @
                  [StartEntry outPath, Write (WriteLittleEndian32 1),
                   Write (WriteCompiledFile
                     \<lparr>file_name = \<lparr>package = [], rtype = ty, entry = name pathData\<rparr>,
                      file_config = config pathData, file_source = source pathData\<rparr>),
                   Write (WriteData
                     (if int (length crunched) \<le> pngChunkFilter_ByteCount env context content
                      then crunched else pngChunkFilter_copy env content)),
                   FinishEntry])"
proof -
  from assms obtain ty where ty: "parseResourceType env (resourceDir pathData) = Some ty"
    by (auto simp: compilePng_def Let_def split: option.splits)
  from assms ty obtain content where
    content: "readFileToString env (path (source pathData)) = Inr content"
    by (auto simp: compilePng_def Let_def split: sum.splits)
  from assms ty content obtain img where img: "readPng env context content = Some img"
    by (auto simp: compilePng_def Let_def split: option.splits)
  define resFile where "resFile =
     \<lparr>file_name = \<lparr>package = [], rtype = ty, entry = name pathData\<rparr>,
      file_config = config pathData, file_source = source pathData\<rparr>"
  define st1 where "st1 = file_access (ReadFileToString (path (source pathData)))
     (if mVerbose context then diag_note (Some (source pathData)) ''compiling PNG'' st else st)"
  have a1: "archive st1 = archive st" by (simp add: st1_def effect_defs)
  show ?thesis
  proof (cases "extension pathData = ''9.png''")
    case True
    from assms ty content img True obtain np where np: "ninePatch_create env img = Inr np"
      by (auto simp: compilePng_def Let_def split: sum.splits)
    from assms ty content img True np obtain stripped where
      stripped: "removeBorder img = Some stripped"
      by (auto simp: compilePng_def Let_def split: option.splits)
    define st2 where "st2 =
       (if mVerbose context
        then diag_note (Some (source pathData)) (''9-patch: '' @ ninePatch_print env np) st1
        else st1)"
    have a2: "archive st2 = archive st" by (simp add: st2_def a1 diag_note_def)
    from assms ty content img True np stripped have
      "compilePng_encode env context pathData outPath resFile content stripped (Some np) st2 =
         (True, st')"
      by (cases "mVerbose context")
         (simp_all add: compilePng_def Let_def resFile_def st1_def st2_def)
    from compilePng_encode_True [OF this] a2 ty content img True np stripped show ?thesis
      unfolding resFile_def by auto
  next
    case False
    from assms ty content img False have
      "compilePng_encode env context pathData outPath resFile content img None st1 = (True, st')"
      by (cases "mVerbose context") (simp_all add: compilePng_def Let_def resFile_def st1_def)
    from compilePng_encode_True [OF this] a1 ty content img False show ?thesis
      unfolding resFile_def by auto
  qed
qed


subsection \<open>The entries of the archive\<close>

lemmas sample_defs =
  sample_env_def sample_input_def sample_options_def sample_files_def sample_image_def
  extractResourcePathData_def sDirSep_def substr_def buildIntermediateFilename_def
  initial_def tableParserOptions_def assignPackageIds_def getPackageId_def
  getCompilationPackage_def Source_of_def

lemmas compile_defs =
  compileInput_def compileTable_def compileXml_def compilePng_def compilePng_encode_def
  compileFile_def flattenXmlToOutStream_def writeHeaderAndBufferToWriter_def
  writeHeaderAndMmapToWriter_def

lemma compileInput_not_values_True:
  assumes "compileInput env context options pathData st = Some (True, st')"
    and "resourceDir pathData \<noteq> ''values''"
  shows "\<exists>n fl rest.
           archive st' = archive st @
             StartEntry (buildIntermediateFilename pathData) #
             Write (WriteLittleEndian32 n) # Write (WriteCompiledFile fl) # rest"
proof -
  define st0 where "st0 =
     (if verbose options then diag_note (Some (source pathData)) ''processing'' st else st)"
  have a0: "archive st0 = archive st" by (simp add: st0_def diag_note_def)
  let ?out = "buildIntermediateFilename pathData"
  from assms consider
      (xml) "compileXml env context options pathData ?out st0 = Some (True, st')"
    | (png) "compilePng env context options pathData ?out st0 = Some (True, st')"
    | (other) "compileFile env context options pathData ?out st0 = Some (True, st')"
    by (auto simp: compileInput_def Let_def st0_def split: option.splits if_splits)
  then show ?thesis
  proof cases
    case xml
    from compileXml_True [OF xml] a0 show ?thesis by auto
  next
    case png
    from compilePng_True [OF png] a0 show ?thesis
      by (cases "extension pathData = ''9.png''") auto
  next
    case other
    from compileFile_True [OF other] a0 show ?thesis by auto
  qed
qed

text \<open>
  C1.  When the driver compiles an input with success: if its \<open>resourceDir\<close> is \<open>values\<close>,
  the entry is opened under the name built from the descriptor with its extension replaced
  by \<open>arsc\<close> (so \<open>values[-config]_name.arsc.flat\<close>), and its body is the serialized resource
  table and nothing else: no count and no compiled-file descriptor before it.  On every other
  path the body starts with the little-endian count and a compiled-file descriptor.
\<close>

theorem values_entry_is_the_serialized_table:
  assumes "compileInput env context options pathData st = Some (True, st')"
  shows "(resourceDir pathData = ''values'' \<longrightarrow>
            (\<exists>fin table table1.
               ifstream env (path (source pathData)) = Inr fin \<and>
               resourceParser_parse env (source pathData) (config pathData)
                 (tableParserOptions options pathData) fin = Some table \<and>
               (if pseudolocalize options then pseudolocaleGenerator_consume env context table
                else Some table) = Some table1 \<and>
               archive st' = archive st @
                 [StartEntry (buildIntermediateFilename (pathData\<lparr>extension := ''arsc''\<rparr>)),
                  Write (SerializeTable
                    (assignPackageIds context
                       (createPackage env (getCompilationPackage context) table1))),
                  FinishEntry]) \<and>
            buildIntermediateFilename (pathData\<lparr>extension := ''arsc''\<rparr>) =
              ''values'' @ (if configStr pathData \<noteq> [] then ''-'' @ configStr pathData else [])
                @ ''_'' @ name pathData @ ''.arsc.flat'') \<and>
         (resourceDir pathData \<noteq> ''values'' \<longrightarrow>
            (\<exists>n fl rest.
               archive st' = archive st @
                 StartEntry (buildIntermediateFilename pathData) #
                 Write (WriteLittleEndian32 n) # Write (WriteCompiledFile fl) # rest))"
proof (intro conjI impI)
  assume v: "resourceDir pathData = ''values''"
  define st0 where "st0 =
     (if verbose options then diag_note (Some (source pathData)) ''processing'' st else st)"
  have a0: "archive st0 = archive st" by (simp add: st0_def diag_note_def)
  from assms v have "compileTable env context options (pathData\<lparr>extension := ''arsc''\<rparr>)
      (buildIntermediateFilename (pathData\<lparr>extension := ''arsc''\<rparr>)) st0 = (True, st')"
    by (cases "verbose options") (simp_all add: compileInput_def Let_def st0_def)
  from compileTable_True [OF this] a0
  show "\<exists>fin table table1.
               ifstream env (path (source pathData)) = Inr fin \<and>
               resourceParser_parse env (source pathData) (config pathData)
                 (tableParserOptions options pathData) fin = Some table \<and>
               (if pseudolocalize options then pseudolocaleGenerator_consume env context table
                else Some table) = Some table1 \<and>
               archive st' = archive st @
                 [StartEntry (buildIntermediateFilename (pathData\<lparr>extension := ''arsc''\<rparr>)),
                  Write (SerializeTable
                    (assignPackageIds context
                       (createPackage env (getCompilationPackage context) table1))),
                  FinishEntry]"
    by (simp add: tableParserOptions_def)
  show "buildIntermediateFilename (pathData\<lparr>extension := ''arsc''\<rparr>) =
          ''values'' @ (if configStr pathData \<noteq> [] then ''-'' @ configStr pathData else [])
            @ ''_'' @ name pathData @ ''.arsc.flat''"
    using v by (simp add: buildIntermediateFilename_def)
next
  assume "resourceDir pathData \<noteq> ''values''"
  with assms show "\<exists>n fl rest.
               archive st' = archive st @
                 StartEntry (buildIntermediateFilename pathData) #
                 Write (WriteLittleEndian32 n) # Write (WriteCompiledFile fl) # rest"
    by (rule compileInput_not_values_True)
qed

theorem values_entry_is_the_serialized_table_witness:
  "\<exists>st'. compileInput sample_env \<lparr>mVerbose = False\<rparr> sample_options
            (sample_input ''res/values/strings.xml'') initial = Some (True, st') \<and>
         resourceDir (sample_input ''res/values/strings.xml'') = ''values'' \<and>
         archive st' =
           [StartEntry ''values_strings.arsc.flat'',
            Write (SerializeTable
              \<lparr>packages = [\<lparr>pkg_name = [], pkg_id = Some 0, pkg_types = ()\<rparr>]\<rparr>),
            FinishEntry]"
  using values_entry_is_the_serialized_table [of sample_env "\<lparr>mVerbose = False\<rparr>"
      sample_options "sample_input ''res/values/strings.xml''" initial]
  by (simp add: sample_defs compile_defs effect_defs Let_def)


text \<open>
  C3.  When \<^verbatim>\<open>compileXml\<close> succeeds and the inline-fragment extraction gave \<open>k\<close>
  sub-documents, the entry holds the 32-bit count \<open>k + 1\<close>, then \<open>k + 1\<close> pairs of a
  compiled-file descriptor and the flattened document: the primary document first, the
  extracted ones after it in the order of the extractor's list; then the entry is closed.
\<close>

theorem compileXml_envelope:
  assumes "compileXml env context options pathData outPath st = Some (True, st')"
  shows "\<exists>fin xmlRes0 ty xmlRes2 primary inlineDocuments payloads.
           ifstream env (path (source pathData)) = Inr fin \<and>
           xml_inflate env fin (source pathData) = Some xmlRes0 \<and>
           parseResourceType env (resourceDir pathData) = Some ty \<and>
           xmlIdCollector_consume env context
             (xmlRes0\<lparr>xml_file := (xml_file xmlRes0)
                \<lparr>file_name := \<lparr>package = [], rtype = ty, entry = name pathData\<rparr>,
                 file_config := config pathData,
                 file_source := source pathData\<rparr>\<rparr>) = Some xmlRes2 \<and>
           inlineXmlFormatParser_consume env context xmlRes2 = Some (primary, inlineDocuments) \<and>
           map (xmlFlattener_consume env context) (primary # inlineDocuments) =
             map Some payloads \<and>
           length payloads = length inlineDocuments + 1 \<and>
           archive st' = archive st @
             [StartEntry outPath,
              Write (WriteLittleEndian32 (of_nat (length inlineDocuments + 1)))] @
             concat (map2 (\<lambda>doc payload.
                       [Write (WriteCompiledFile (xml_file doc)), Write (WriteData payload)])
                     (primary # inlineDocuments) payloads) @
             [FinishEntry]"
proof -
  from compileXml_True [OF assms] obtain fin xmlRes0 ty xmlRes2 primary inlineDocuments payloads
    where *: "ifstream env (path (source pathData)) = Inr fin"
      "xml_inflate env fin (source pathData) = Some xmlRes0"
      "parseResourceType env (resourceDir pathData) = Some ty"
      "xmlIdCollector_consume env context
             (xmlRes0\<lparr>xml_file := (xml_file xmlRes0)
                \<lparr>file_name := \<lparr>package = [], rtype = ty, entry = name pathData\<rparr>,
                 file_config := config pathData,
                 file_source := source pathData\<rparr>\<rparr>) = Some xmlRes2"
      "inlineXmlFormatParser_consume env context xmlRes2 = Some (primary, inlineDocuments)"
      "map (xmlFlattener_consume env context) (primary # inlineDocuments) = map Some payloads"
      "archive st' = archive st @
             [StartEntry outPath,
              Write (WriteLittleEndian32 (of_nat (length inlineDocuments + 1)))] @
             concat (map2 (\<lambda>doc payload.
                       [Write (WriteCompiledFile (xml_file doc)), Write (WriteData payload)])
                     (primary # inlineDocuments) payloads) @
             [FinishEntry]"
    by blast
  from *(6) have "length (primary # inlineDocuments) = length payloads"
    by (metis length_map)
  then have "length payloads = length inlineDocuments + 1" by simp
  with * show ?thesis by blast
qed

theorem compileXml_envelope_witness:
  "\<exists>st'. compileXml sample_env \<lparr>mVerbose = False\<rparr> sample_options
            (sample_input ''res/layout/main.xml'') ''layout_main.xml.flat'' initial =
              Some (True, st') \<and>
         archive st' =
           [StartEntry ''layout_main.xml.flat'', Write (WriteLittleEndian32 2),
            Write (WriteCompiledFile
              \<lparr>file_name = \<lparr>package = [], rtype = ''layout'', entry = ''main''\<rparr>,
               file_config = (), file_source = Source_of ''res/layout/main.xml''\<rparr>),
            Write (WriteData ''<View/>''),
            Write (WriteCompiledFile
              \<lparr>file_name = \<lparr>package = [], rtype = ''layout'', entry = ''main''\<rparr>,
               file_config = (), file_source = Source_of ''res/layout/main.xml''\<rparr>),
            Write (WriteData ''<shape/>''), FinishEntry]"
  using compileXml_envelope [of sample_env "\<lparr>mVerbose = False\<rparr>" sample_options
      "sample_input ''res/layout/main.xml''" "''layout_main.xml.flat''" initial]
  by (simp add: sample_defs compile_defs effect_defs Let_def)

text \<open>
  C2.  When \<^verbatim>\<open>compilePng\<close> succeeds, the payload of the envelope is the re-encoded buffer
  if a 9-patch was built (which is the case exactly for the extension \<open>9.png\<close>), whatever
  the sizes; otherwise it is the re-encoded buffer if and only if its length is at most the
  byte count of the chunk filter, and else the output of a second run of the chunk filter
  over the file's content.
\<close>

theorem compilePng_payload_selection:
  assumes "compilePng env context options pathData outPath st = Some (True, st')"
  shows "\<exists>content img encoded ninePatch crunched resFile.
           readFileToString env (path (source pathData)) = Inr content \<and>
           readPng env context content = Some img \<and>
           (ninePatch \<noteq> None) = (extension pathData = ''9.png'') \<and>
           (if extension pathData = ''9.png'' then removeBorder img = Some encoded
            else encoded = img) \<and>
           writePng env context encoded ninePatch = Some crunched \<and>
           archive st' = archive st @
             [StartEntry outPath, Write (WriteLittleEndian32 1), Write (WriteCompiledFile resFile),
              Write (WriteData
                (if ninePatch \<noteq> None then crunched
                 else if int (length crunched) \<le> pngChunkFilter_ByteCount env context content
                 then crunched
                 else pngChunkFilter_copy env content)),
              FinishEntry]"
proof -
  from compilePng_True [OF assms] obtain ty content img where
    c: "readFileToString env (path (source pathData)) = Inr content" and
    i: "readPng env context content = Some img" and
    r: "if extension pathData = ''9.png'' then
              \<exists>np stripped crunched.
                ninePatch_create env img = Inr np \<and> removeBorder img = Some stripped \<and>
                writePng env context stripped (Some np) = Some crunched \<and>
                archive st' = archive st @
                  [StartEntry outPath, Write (WriteLittleEndian32 1),
                   Write (WriteCompiledFile
                     \<lparr>file_name = \<lparr>package = [], rtype = ty, entry = name pathData\<rparr>,
                      file_config = config pathData, file_source = source pathData\<rparr>),
                   Write (WriteData crunched), FinishEntry]
            else
              \<exists>crunched.
                writePng env context img None = Some crunched \<and>
                archive st' = archive st @
                  [StartEntry outPath, Write (WriteLittleEndian32 1),
                   Write (WriteCompiledFile
                     \<lparr>file_name = \<lparr>package = [], rtype = ty, entry = name pathData\<rparr>,
                      file_config = config pathData, file_source = source pathData\<rparr>),
                   Write (WriteData
                     (if int (length crunched) \<le> pngChunkFilter_ByteCount env context content
                      then crunched else pngChunkFilter_copy env content)),
                   FinishEntry]"
    by blast
  show ?thesis
  proof (cases "extension pathData = ''9.png''")
    case True
    with r obtain np stripped crunched where
      "removeBorder img = Some stripped"
      "writePng env context stripped (Some np) = Some crunched"
      "archive st' = archive st @
                  [StartEntry outPath, Write (WriteLittleEndian32 1),
                   Write (WriteCompiledFile
                     \<lparr>file_name = \<lparr>package = [], rtype = ty, entry = name pathData\<rparr>,
                      file_config = config pathData, file_source = source pathData\<rparr>),
                   Write (WriteData crunched), FinishEntry]"
      by auto
    with c i True show ?thesis
      by (intro exI [of _ content] exI [of _ img] exI [of _ stripped] exI [of _ "Some np"]
            exI [of _ crunched]) auto
  next
    case False
    with r obtain crunched where
      "writePng env context img None = Some crunched"
      "archive st' = archive st @
                  [StartEntry outPath, Write (WriteLittleEndian32 1),
                   Write (WriteCompiledFile
                     \<lparr>file_name = \<lparr>package = [], rtype = ty, entry = name pathData\<rparr>,
                      file_config = config pathData, file_source = source pathData\<rparr>),
                   Write (WriteData
                     (if int (length crunched) \<le> pngChunkFilter_ByteCount env context content
                      then crunched else pngChunkFilter_copy env content)),
                   FinishEntry]"
      by auto
    with c i False show ?thesis
      by (intro exI [of _ content] exI [of _ img] exI [of _ img] exI [of _ None]
            exI [of _ crunched]) auto
  qed
qed

theorem compilePng_payload_selection_witness:
  "\<exists>st'. compilePng sample_env \<lparr>mVerbose = False\<rparr> sample_options
            (sample_input ''res/drawable/photo.png'') ''drawable_photo.png.flat'' initial =
              Some (True, st') \<and>
         writePng sample_env \<lparr>mVerbose = False\<rparr> sample_image None = Some ''re-encoded PNG'' \<and>
         \<not> int (length ''re-encoded PNG'') \<le>
             pngChunkFilter_ByteCount sample_env \<lparr>mVerbose = False\<rparr> ''PNG'' \<and>
         archive st' =
           [StartEntry ''drawable_photo.png.flat'', Write (WriteLittleEndian32 1),
            Write (WriteCompiledFile
              \<lparr>file_name = \<lparr>package = [], rtype = ''drawable'', entry = ''photo''\<rparr>,
               file_config = (), file_source = Source_of ''res/drawable/photo.png''\<rparr>),
            Write (WriteData (pngChunkFilter_copy sample_env ''PNG'')), FinishEntry]"
  using compilePng_payload_selection [of sample_env "\<lparr>mVerbose = False\<rparr>" sample_options
      "sample_input ''res/drawable/photo.png''" "''drawable_photo.png.flat''" initial]
  by (simp add: sample_defs compile_defs effect_defs Let_def)


subsection \<open>The border of a 9-patch\<close>

lemma sint_minus_two:
  fixes w :: "32 word"
  assumes "- (2 ^ 31) \<le> sint w - 2"
  shows "sint (w - 2) = sint w - 2"
proof -
  have "sint w < 2 ^ 31" using sint_lt [of w] by simp
  then have "sint w - 2 < 2 ^ 31" by simp
  with assms show ?thesis
    by (simp add: sint_word_ariths signed_take_bit_int_eq_self)
qed

lemma removeBorder_dims:
  assumes "removeBorder img = Some stripped"
  shows "sint (width stripped) = sint (width img) - 2 \<and>
         sint (height stripped) = sint (height img) - 2 \<and>
         0 \<le> sint (height stripped)"
proof -
  from assms have w: "- (2 ^ 31) \<le> sint (width img) - 2"
    and h: "- (2 ^ 31) \<le> sint (height img) - 2" and h0: "0 \<le> sint (height img) - 2"
    by (auto simp: removeBorder_def Let_def split: if_splits)
  from assms have "width stripped = width img - 2" "height stripped = height img - 2"
    by (auto simp: removeBorder_def Let_def split: if_splits option.splits)
  with sint_minus_two [OF w] sint_minus_two [OF h] h0 show ?thesis by simp
qed

lemma memmove_rows_nth:
  assumes "memmove_rows rs n = Some rs'" and "h < n"
  shows "rs' ! h = rs ! (h + 1)"
  using assms by (auto simp: memmove_rows_def nth_append split: if_splits)

lemma memmove_row_nth:
  assumes "memmove_row r n = Some r'" and "x < n"
  shows "r' ! x = r ! (x + 4)"
  using assms by (auto simp: memmove_row_def nth_append add.commute split: if_splits)

lemma shiftRows_frame:
  assumes "shiftRows n as m = Some m'" and "a \<notin> set as"
  shows "m' a = m a"
  using assms
  by (induction as arbitrary: m) (auto split: option.splits)

lemma shiftRows_row:
  assumes "shiftRows n as m = Some m'" and "distinct as" and "a \<in> set as"
  shows "\<exists>r r'. m a = Some r \<and> memmove_row r n = Some r' \<and> m' a = Some r'"
  using assms
proof (induction as arbitrary: m)
  case Nil
  then show ?case by simp
next
  case (Cons b bs)
  from Cons.prems(1) obtain r0 r0' where
    b: "m b = Some r0" "memmove_row r0 n = Some r0'" and
    rest: "shiftRows n bs (m(b \<mapsto> r0')) = Some m'"
    by (auto split: option.splits)
  show ?case
  proof (cases "a = b")
    case True
    from Cons.prems(2) have "b \<notin> set bs" by simp
    from shiftRows_frame [OF rest this] have "m' b = Some r0'" by simp
    with b True show ?thesis by simp
  next
    case False
    with Cons.prems have "a \<in> set bs" "distinct bs" by simp_all
    from Cons.IH [OF rest this(2) this(1)] False show ?thesis by simp
  qed
qed

lemma removeBorder_pixels:
  assumes rb: "removeBorder img = Some stripped"
    and d: "distinct (rows img)"
    and h: "h < nat (sint (height stripped))"
    and x: "x < nat (4 * sint (width stripped))"
  shows "\<exists>r r'. mem img (rows img ! (h + 1)) = Some r \<and>
                mem stripped (rows stripped ! h) = Some r' \<and> r' ! x = r ! (x + 4)"
proof -
  from removeBorder_dims [OF rb] have
    dims: "sint (width stripped) = sint (width img) - 2"
          "sint (height stripped) = sint (height img) - 2"
    by simp_all
  define n where "n = nat (sint (height img) - 2)"
  define k where "k = nat ((sint (width img) - 2) * 4)"
  from h dims have hn: "h < n" by (simp add: n_def)
  from x dims have xk: "x < k" by (simp add: k_def mult.commute)
  from rb obtain rs m where
    rs: "memmove_rows (rows img) n = Some rs" and
    m: "shiftRows k (take n rs) (mem img) = Some m" and
    s: "rows stripped = rs" "mem stripped = m"
    by (auto simp: removeBorder_def Let_def n_def k_def split: if_splits option.splits)
  from hn have n0: "n \<noteq> 0" by simp
  with rs have len: "n + 1 \<le> length (rows img)"
    and rs_eq: "rs = take n (drop 1 (rows img)) @ drop n (rows img)"
    by (auto simp: memmove_rows_def split: if_splits)
  from len have tk: "take n rs = take n (drop 1 (rows img))"
    by (simp add: rs_eq)
  have "distinct (take n (drop 1 (rows img)))"
    using d by (simp add: distinct_take distinct_drop)
  then have dist: "distinct (take n rs)" by (simp add: tk)
  have nth: "rs ! h = rows img ! (h + 1)"
    using memmove_rows_nth [OF rs hn] .
  from hn len have "h < length (take n rs)" by (simp add: tk)
  then have "take n rs ! h \<in> set (take n rs)" by (rule nth_mem)
  with hn have mem_h: "rs ! h \<in> set (take n rs)" by simp
  from shiftRows_row [OF m dist mem_h] obtain r r' where
    r: "mem img (rs ! h) = Some r" "memmove_row r k = Some r'" "m (rs ! h) = Some r'"
    by blast
  from memmove_row_nth [OF r(2) xk] r(1,3) nth s show ?thesis by simp
qed


lemma removeBorder_rows:
  assumes rb: "removeBorder img = Some stripped"
    and h: "h < nat (sint (height stripped))"
  shows "rows stripped ! h = rows img ! (h + 1)"
proof -
  from removeBorder_dims [OF rb] h have hn: "h < nat (sint (height img) - 2)" by simp
  from rb obtain rs where
    rs: "memmove_rows (rows img) (nat (sint (height img) - 2)) = Some rs" and
    s: "rows stripped = rs"
    by (auto simp: removeBorder_def Let_def split: if_splits option.splits)
  from memmove_rows_nth [OF rs hn] s show ?thesis by simp
qed

text \<open>
  C8.  When \<^verbatim>\<open>compilePng\<close> succeeds on an input of extension \<open>9.png\<close>, the picture that is
  re-encoded (and whose encoding is the payload, whatever its size) has the width and the
  height of the decoded one minus 2, as integers.  Its row \<open>h\<close> is the decoded row
  \<open>h + 1\<close>, and, the decoded rows being distinct buffers, its byte \<open>x\<close> is byte \<open>x + 4\<close> of that
  row: the border of one pixel is gone.
\<close>

theorem ninePatch_border_removed:
  assumes "compilePng env context options pathData outPath st = Some (True, st')"
    and "extension pathData = ''9.png''"
  shows "\<exists>content img np stripped crunched resFile.
           readFileToString env (path (source pathData)) = Inr content \<and>
           readPng env context content = Some img \<and>
           ninePatch_create env img = Inr np \<and>
           removeBorder img = Some stripped \<and>
           sint (width stripped) = sint (width img) - 2 \<and>
           sint (height stripped) = sint (height img) - 2 \<and>
           (\<forall>h. h < nat (sint (height stripped)) \<longrightarrow> rows stripped ! h = rows img ! (h + 1)) \<and>
           (distinct (rows img) \<longrightarrow>
              (\<forall>h x. h < nat (sint (height stripped)) \<and> x < nat (4 * sint (width stripped)) \<longrightarrow>
                 (\<exists>r r'. mem img (rows img ! (h + 1)) = Some r \<and>
                         mem stripped (rows stripped ! h) = Some r' \<and>
                         r' ! x = r ! (x + 4)))) \<and>
           writePng env context stripped (Some np) = Some crunched \<and>
           archive st' = archive st @
             [StartEntry outPath, Write (WriteLittleEndian32 1), Write (WriteCompiledFile resFile),
              Write (WriteData crunched), FinishEntry]"
proof -
  from compilePng_True [OF assms(1)] assms(2)
  obtain ty content img np stripped crunched where
    c: "readFileToString env (path (source pathData)) = Inr content" and
    i: "readPng env context content = Some img" and
    np: "ninePatch_create env img = Inr np" and
    rb: "removeBorder img = Some stripped" and
    w: "writePng env context stripped (Some np) = Some crunched" and
    a: "archive st' = archive st @
          [StartEntry outPath, Write (WriteLittleEndian32 1),
           Write (WriteCompiledFile
             \<lparr>file_name = \<lparr>package = [], rtype = ty, entry = name pathData\<rparr>,
              file_config = config pathData, file_source = source pathData\<rparr>),
           Write (WriteData crunched), FinishEntry]"
    by auto
  note dims = removeBorder_dims [OF rb]
  have r: "\<forall>h. h < nat (sint (height stripped)) \<longrightarrow> rows stripped ! h = rows img ! (h + 1)"
    using removeBorder_rows [OF rb] by blast
  have p: "distinct (rows img) \<longrightarrow>
      (\<forall>h x. h < nat (sint (height stripped)) \<and> x < nat (4 * sint (width stripped)) \<longrightarrow>
         (\<exists>r r'. mem img (rows img ! (h + 1)) = Some r \<and>
                 mem stripped (rows stripped ! h) = Some r' \<and>
                 r' ! x = r ! (x + 4)))"
    using removeBorder_pixels [OF rb] by blast
  from c i np rb dims r p w a show ?thesis by blast
qed

lemma removeBorder_sample_image:
  "removeBorder sample_image =
     Some \<lparr>width = 1, height = 1, rows = [1, 1, 2],
           mem = (mem sample_image)
             (1 \<mapsto> [20, 21, 22, 23, 20, 21, 22, 23, 24, 25, 26, 27])\<rparr>"
  by (simp add: removeBorder_def sample_image_def memmove_rows_def memmove_row_def Let_def
        upt_conv_Cons eval_nat_numeral)

theorem ninePatch_border_removed_witness:
  "\<exists>st' stripped.
     compilePng sample_env \<lparr>mVerbose = False\<rparr> sample_options
       (sample_input ''res/drawable-hdpi/icon.9.png'') ''drawable-hdpi_icon.9.png.flat'' initial =
         Some (True, st') \<and>
     extension (sample_input ''res/drawable-hdpi/icon.9.png'') = ''9.png'' \<and>
     removeBorder sample_image = Some stripped \<and>
     sint (width sample_image) = 3 \<and> sint (width stripped) = 1 \<and>
     sint (height sample_image) = 3 \<and> sint (height stripped) = 1 \<and>
     archive st' =
       [StartEntry ''drawable-hdpi_icon.9.png.flat'', Write (WriteLittleEndian32 1),
        Write (WriteCompiledFile
          \<lparr>file_name = \<lparr>package = [], rtype = ''drawable'', entry = ''icon''\<rparr>,
           file_config = (), file_source = Source_of ''res/drawable-hdpi/icon.9.png''\<rparr>),
        Write (WriteData ''re-encoded PNG''), FinishEntry]"
  using ninePatch_border_removed [of sample_env "\<lparr>mVerbose = False\<rparr>" sample_options
      "sample_input ''res/drawable-hdpi/icon.9.png''" "''drawable-hdpi_icon.9.png.flat''" initial]
  by (simp add: sample_env_def sample_input_def sample_options_def sample_files_def
        extractResourcePathData_def sDirSep_def substr_def initial_def Source_of_def
        compilePng_def compilePng_encode_def writeHeaderAndBufferToWriter_def
        startEntry_def finishEntry_def streamWrite_def diag_error_def diag_note_def
        file_access_def Let_def removeBorder_sample_image)


subsection \<open>The legacy PNG processor\<close>

lemma compilePng_not_verbose:
  assumes "\<not> mVerbose context"
  shows "compilePng (env\<lparr>png_process := legacy\<rparr>) context options pathData outPath st =
         compilePng env context options pathData outPath st"
  using assms
  by (simp add: compilePng_def compilePng_encode_def writeHeaderAndBufferToWriter_def
        effect_defs Let_def cong: option.case_cong sum.case_cong if_cong)

lemma compilePng_legacy_fails:
  assumes "mVerbose context"
    and "readFileToString env (path (source pathData)) = Inr content"
    and "png_process env (source pathData) content = None"
    and "compilePng env context options pathData outPath st = Some (ok, st')"
  shows "\<not> ok \<and> archive st' = archive st"
  using assms
  by (auto simp: compilePng_def compilePng_encode_def effect_defs Let_def
           split: option.splits sum.splits if_splits)

lemma writeHeaderAndBufferToWriter_True_iff:
  "writeHeaderAndBufferToWriter env outPath fl buffer st = (True, st') \<longleftrightarrow>
     startEntryOk env (archive st) outPath \<and>
     writeOk env (archive st @ [StartEntry outPath]) (WriteLittleEndian32 1) \<and>
     writeOk env (archive st @ [StartEntry outPath, Write (WriteLittleEndian32 1)])
       (WriteCompiledFile fl) \<and>
     writeOk env (archive st @ [StartEntry outPath, Write (WriteLittleEndian32 1),
                               Write (WriteCompiledFile fl)]) (WriteData buffer) \<and>
     finishEntryOk env (archive st @ [StartEntry outPath, Write (WriteLittleEndian32 1),
                                     Write (WriteCompiledFile fl), Write (WriteData buffer)]) \<and>
     st' = st\<lparr>archive := archive st @
             [StartEntry outPath, Write (WriteLittleEndian32 1), Write (WriteCompiledFile fl),
              Write (WriteData buffer), FinishEntry]\<rparr>"
  by (auto simp: writeHeaderAndBufferToWriter_def effect_defs)

lemma writeHeaderAndBufferToWriter_transfer:
  assumes "writeHeaderAndBufferToWriter env outPath fl buffer st = (True, st')"
    and "archive sta = archive st"
  shows "writeHeaderAndBufferToWriter env outPath fl buffer sta =
           (True, sta\<lparr>archive := archive st'\<rparr>)"
  using assms unfolding writeHeaderAndBufferToWriter_True_iff by simp

lemma compilePng_steps:
  assumes ty: "parseResourceType env (resourceDir pathData) = Some ty"
    and c: "readFileToString env (path (source pathData)) = Inr content"
    and i: "readPng env ctx content = Some img"
    and e: "if extension pathData = ''9.png''
            then ninePatch_create env img = Inr np \<and> removeBorder img = Some enc \<and>
                 npo = Some np
            else enc = img \<and> npo = None"
    and w: "writePng env ctx enc npo = Some crunched"
  shows "compilePng env ctx options pathData outPath st =
     (let useCrunched =
            (npo \<noteq> None \<or> int (length crunched) \<le> pngChunkFilter_ByteCount env ctx content);
          buffer = (if useCrunched then crunched else pngChunkFilter_copy env content);
          resFile = \<lparr>file_name = \<lparr>package = [], rtype = ty, entry = name pathData\<rparr>,
                     file_config = config pathData, file_source = source pathData\<rparr>;
          selected =
            st\<lparr>diag := diag st @
                  (if mVerbose ctx then
                     Note (Some (source pathData)) ''compiling PNG'' #
                     (if npo \<noteq> None
                      then [Note (Some (source pathData)) (''9-patch: '' @ ninePatch_print env np)]
                      else []) @
                     (if useCrunched then []
                      else [Note (Some (source pathData))
                              ''original PNG is smaller than crunched PNG, using original''])
                   else []),
               accesses := accesses st @ [ReadFileToString (path (source pathData))]\<rparr>
      in
        if mVerbose ctx then
          (case png_process env (source pathData) content of
             None \<Rightarrow> Some (False, selected)
           | Some legacyBuffer \<Rightarrow>
               Some (writeHeaderAndBufferToWriter env outPath resFile buffer
                       (selected\<lparr>diag := diag selected @
                          [Note (Some (source pathData))
                             (''legacy='' @ show_nat (length legacyBuffer) @
                              '' new='' @ show_nat (length buffer))]\<rparr>)))
        else Some (writeHeaderAndBufferToWriter env outPath resFile buffer selected))"
proof (cases "extension pathData = ''9.png''")
  case True
  with e have "ninePatch_create env img = Inr np" "removeBorder img = Some enc" "npo = Some np"
    by simp_all
  with ty c i w True show ?thesis
    by (cases "mVerbose ctx")
       (simp_all add: compilePng_def compilePng_encode_def Let_def diag_note_def file_access_def
          split: option.split)
next
  case False
  with e have "enc = img" "npo = None" by simp_all
  with ty c i w False show ?thesis
    by (cases "mVerbose ctx";
        cases "int (length crunched) \<le> pngChunkFilter_ByteCount env ctx content")
       (simp_all add: compilePng_def compilePng_encode_def Let_def diag_note_def file_access_def
          split: option.split)
qed


lemma compilePng_verbose_of_quiet:
  assumes quiet: "\<not> mVerbose context"
    and rp: "readPng env (context\<lparr>mVerbose := True\<rparr>) = readPng env context"
    and bc: "pngChunkFilter_ByteCount env (context\<lparr>mVerbose := True\<rparr>) =
             pngChunkFilter_ByteCount env context"
    and wp: "writePng env (context\<lparr>mVerbose := True\<rparr>) = writePng env context"
    and run: "compilePng env context options pathData outPath st = Some (True, st1)"
  shows "\<exists>content resFile encoded ninePatch crunched payload.
           readFileToString env (path (source pathData)) = Inr content \<and>
           writePng env context encoded ninePatch = Some crunched \<and>
           (ninePatch \<noteq> None) = (extension pathData = ''9.png'') \<and>
           payload =
             (if ninePatch \<noteq> None \<or>
                 int (length crunched) \<le> pngChunkFilter_ByteCount env context content
              then crunched else pngChunkFilter_copy env content) \<and>
           archive st1 = archive st @
             [StartEntry outPath, Write (WriteLittleEndian32 1), Write (WriteCompiledFile resFile),
              Write (WriteData payload), FinishEntry] \<and>
           (case png_process env (source pathData) content of
              None \<Rightarrow>
                (\<exists>st2. compilePng env (context\<lparr>mVerbose := True\<rparr>) options pathData outPath st =
                          Some (False, st2) \<and>
                       archive st2 = archive st \<and> accesses st2 = accesses st1 \<and>
                       (\<not> (ninePatch \<noteq> None \<or>
                           int (length crunched) \<le>
                             pngChunkFilter_ByteCount env context content) \<longrightarrow>
                        last (diag st2) =
                          Note (Some (source pathData))
                            ''original PNG is smaller than crunched PNG, using original''))
            | Some legacyBuffer \<Rightarrow>
                (\<exists>st2. compilePng env (context\<lparr>mVerbose := True\<rparr>) options pathData outPath st =
                          Some (True, st2) \<and>
                       archive st2 = archive st1 \<and> accesses st2 = accesses st1 \<and>
                       last (diag st2) =
                         Note (Some (source pathData))
                           (''legacy='' @ show_nat (length legacyBuffer) @
                            '' new='' @ show_nat (length payload))))"
proof -
  let ?loud = "context\<lparr>mVerbose := True\<rparr>"
  from compilePng_True [OF run] obtain ty content img where
    ty: "parseResourceType env (resourceDir pathData) = Some ty" and
    c: "readFileToString env (path (source pathData)) = Inr content" and
    i: "readPng env context content = Some img" and
    r: "if extension pathData = ''9.png'' then
          \<exists>np stripped crunched.
            ninePatch_create env img = Inr np \<and> removeBorder img = Some stripped \<and>
            writePng env context stripped (Some np) = Some crunched \<and>
            archive st1 = archive st @
              [StartEntry outPath, Write (WriteLittleEndian32 1),
               Write (WriteCompiledFile
                 \<lparr>file_name = \<lparr>package = [], rtype = ty, entry = name pathData\<rparr>,
                  file_config = config pathData, file_source = source pathData\<rparr>),
               Write (WriteData crunched), FinishEntry]
        else
          \<exists>crunched.
            writePng env context img None = Some crunched \<and>
            archive st1 = archive st @
              [StartEntry outPath, Write (WriteLittleEndian32 1),
               Write (WriteCompiledFile
                 \<lparr>file_name = \<lparr>package = [], rtype = ty, entry = name pathData\<rparr>,
                  file_config = config pathData, file_source = source pathData\<rparr>),
               Write (WriteData
                 (if int (length crunched) \<le> pngChunkFilter_ByteCount env context content
                  then crunched else pngChunkFilter_copy env content)),
               FinishEntry]"
    by blast
  define resFile where "resFile =
     \<lparr>file_name = \<lparr>package = [], rtype = ty, entry = name pathData\<rparr>,
      file_config = config pathData, file_source = source pathData\<rparr>"
  from r obtain np enc npo crunched where
    e: "if extension pathData = ''9.png''
        then ninePatch_create env img = Inr np \<and> removeBorder img = Some enc \<and> npo = Some np
        else enc = img \<and> npo = None" and
    w: "writePng env context enc npo = Some crunched"
    by (cases "extension pathData = ''9.png''") auto
  from e have npo: "(npo \<noteq> None) = (extension pathData = ''9.png'')"
    by (cases "extension pathData = ''9.png''") auto
  define useCrunched where "useCrunched =
     (npo \<noteq> None \<or> int (length crunched) \<le> pngChunkFilter_ByteCount env context content)"
  define payload where "payload =
     (if useCrunched then crunched else pngChunkFilter_copy env content)"
  define selected where "selected =
     st\<lparr>accesses := accesses st @ [ReadFileToString (path (source pathData))]\<rparr>"
  have q: "compilePng env context options pathData outPath st =
      Some (writeHeaderAndBufferToWriter env outPath resFile payload selected)"
    using compilePng_steps [OF ty c i e w, of options outPath st] quiet
    by (simp add: Let_def resFile_def payload_def useCrunched_def selected_def)
  with run have wh: "writeHeaderAndBufferToWriter env outPath resFile payload selected =
      (True, st1)"
    by simp
  from writeHeaderAndBufferToWriter_True [OF wh] have a1: "archive st1 = archive st @
      [StartEntry outPath, Write (WriteLittleEndian32 1), Write (WriteCompiledFile resFile),
       Write (WriteData payload), FinishEntry]"
    by (simp add: selected_def)
  from wh have acc1: "accesses st1 = accesses st @ [ReadFileToString (path (source pathData))]"
    unfolding writeHeaderAndBufferToWriter_True_iff by (simp add: selected_def)
  have i': "readPng env ?loud content = Some img" using i rp by simp
  have w': "writePng env ?loud enc npo = Some crunched" using w wp by simp
  define chosen where "chosen =
     st\<lparr>diag := diag st @
           Note (Some (source pathData)) ''compiling PNG'' #
           (if npo \<noteq> None
            then [Note (Some (source pathData)) (''9-patch: '' @ ninePatch_print env np)]
            else []) @
           (if useCrunched then []
            else [Note (Some (source pathData))
                    ''original PNG is smaller than crunched PNG, using original'']),
         accesses := accesses st @ [ReadFileToString (path (source pathData))]\<rparr>"
  have l: "compilePng env ?loud options pathData outPath st =
     (case png_process env (source pathData) content of
        None \<Rightarrow> Some (False, chosen)
      | Some legacyBuffer \<Rightarrow>
          Some (writeHeaderAndBufferToWriter env outPath resFile payload
                  (chosen\<lparr>diag := diag chosen @
                     [Note (Some (source pathData))
                        (''legacy='' @ show_nat (length legacyBuffer) @
                         '' new='' @ show_nat (length payload))]\<rparr>)))"
    using compilePng_steps [OF ty c i' e w', of options outPath st]
    by (cases "png_process env (source pathData) content")
       (simp_all add: Let_def resFile_def payload_def useCrunched_def chosen_def bc)
  have verdict: "case png_process env (source pathData) content of
              None \<Rightarrow>
                (\<exists>st2. compilePng env ?loud options pathData outPath st = Some (False, st2) \<and>
                       archive st2 = archive st \<and> accesses st2 = accesses st1 \<and>
                       (\<not> useCrunched \<longrightarrow>
                        last (diag st2) =
                          Note (Some (source pathData))
                            ''original PNG is smaller than crunched PNG, using original''))
            | Some legacyBuffer \<Rightarrow>
                (\<exists>st2. compilePng env ?loud options pathData outPath st = Some (True, st2) \<and>
                       archive st2 = archive st1 \<and> accesses st2 = accesses st1 \<and>
                       last (diag st2) =
                         Note (Some (source pathData))
                           (''legacy='' @ show_nat (length legacyBuffer) @
                            '' new='' @ show_nat (length payload)))"
  proof (cases "png_process env (source pathData) content")
    case None
    with l have "compilePng env ?loud options pathData outPath st = Some (False, chosen)"
      by simp
    moreover have "archive chosen = archive st" "accesses chosen = accesses st1"
      by (simp_all add: chosen_def acc1)
    moreover have "\<not> useCrunched \<longrightarrow> last (diag chosen) =
        Note (Some (source pathData))
          ''original PNG is smaller than crunched PNG, using original''"
      by (simp add: chosen_def)
    ultimately show ?thesis using None by auto
  next
    case (Some legacyBuffer)
    define noted where "noted = chosen\<lparr>diag := diag chosen @
        [Note (Some (source pathData))
           (''legacy='' @ show_nat (length legacyBuffer) @
            '' new='' @ show_nat (length payload))]\<rparr>"
    have "archive noted = archive selected" by (simp add: noted_def chosen_def selected_def)
    from writeHeaderAndBufferToWriter_transfer [OF wh this]
    have t: "writeHeaderAndBufferToWriter env outPath resFile payload noted =
        (True, noted\<lparr>archive := archive st1\<rparr>)" .
    with l Some have "compilePng env ?loud options pathData outPath st =
        Some (True, noted\<lparr>archive := archive st1\<rparr>)"
      by (simp add: noted_def)
    moreover have "archive (noted\<lparr>archive := archive st1\<rparr>) = archive st1"
      "accesses (noted\<lparr>archive := archive st1\<rparr>) = accesses st1"
      "last (diag (noted\<lparr>archive := archive st1\<rparr>)) =
         Note (Some (source pathData))
           (''legacy='' @ show_nat (length legacyBuffer) @
            '' new='' @ show_nat (length payload))"
      by (simp_all add: noted_def chosen_def acc1)
    ultimately show ?thesis using Some by auto
  qed
  from c w npo a1 verdict show ?thesis
    unfolding payload_def useCrunched_def by blast
qed


text \<open>
  C10.  Without \<^verbatim>\<open>verbose()\<close> the result of \<^verbatim>\<open>compilePng\<close> does not depend on the
  legacy processor: it is the same with any other one in its place.  With \<^verbatim>\<open>verbose()\<close>,
  a failure of the legacy processor on the content of the file makes the input fail, with
  nothing written to the archive.  More precisely, take an input that compiles without
  \<^verbatim>\<open>verbose()\<close>, the decoder, the encoder and the chunk filter giving the same results
  under both settings.  With \<^verbatim>\<open>verbose()\<close> the legacy processor is run on the content
  of the file, after the choice of the payload (the note of that choice is already
  reported when it fails): if it returns a buffer, the input compiles again, to the same
  entry, and the last note gives the size of that buffer and of the payload; if it fails,
  the input fails and the archive is left as it was.  So every such input compiles with
  \<^verbatim>\<open>verbose()\<close> off and fails with it on as soon as the legacy processor rejects its
  content, as one that rejects everything does.
\<close>

theorem verbose_runs_legacy_png_processor:
  "(\<not> mVerbose context \<longrightarrow>
      compilePng (env\<lparr>png_process := legacy\<rparr>) context options pathData outPath st =
      compilePng env context options pathData outPath st) \<and>
   (mVerbose context \<and> readFileToString env (path (source pathData)) = Inr content \<and>
    png_process env (source pathData) content = None \<and>
    compilePng env context options pathData outPath st = Some (ok, st') \<longrightarrow>
      \<not> ok \<and> archive st' = archive st) \<and>
   (\<not> mVerbose context \<and>
    readPng env (context\<lparr>mVerbose := True\<rparr>) = readPng env context \<and>
    pngChunkFilter_ByteCount env (context\<lparr>mVerbose := True\<rparr>) =
      pngChunkFilter_ByteCount env context \<and>
    writePng env (context\<lparr>mVerbose := True\<rparr>) = writePng env context \<and>
    compilePng env context options pathData outPath st = Some (True, st1) \<longrightarrow>
      (\<exists>content resFile encoded ninePatch crunched payload.
         readFileToString env (path (source pathData)) = Inr content \<and>
         writePng env context encoded ninePatch = Some crunched \<and>
         (ninePatch \<noteq> None) = (extension pathData = ''9.png'') \<and>
         payload =
           (if ninePatch \<noteq> None \<or>
               int (length crunched) \<le> pngChunkFilter_ByteCount env context content
            then crunched else pngChunkFilter_copy env content) \<and>
         archive st1 = archive st @
           [StartEntry outPath, Write (WriteLittleEndian32 1), Write (WriteCompiledFile resFile),
            Write (WriteData payload), FinishEntry] \<and>
         (case png_process env (source pathData) content of
            None \<Rightarrow>
              (\<exists>st2. compilePng env (context\<lparr>mVerbose := True\<rparr>) options pathData outPath st =
                        Some (False, st2) \<and>
                     archive st2 = archive st \<and> accesses st2 = accesses st1 \<and>
                     (\<not> (ninePatch \<noteq> None \<or>
                         int (length crunched) \<le>
                           pngChunkFilter_ByteCount env context content) \<longrightarrow>
                      last (diag st2) =
                        Note (Some (source pathData))
                          ''original PNG is smaller than crunched PNG, using original''))
          | Some legacyBuffer \<Rightarrow>
              (\<exists>st2. compilePng env (context\<lparr>mVerbose := True\<rparr>) options pathData outPath st =
                        Some (True, st2) \<and>
                     archive st2 = archive st1 \<and> accesses st2 = accesses st1 \<and>
                     last (diag st2) =
                       Note (Some (source pathData))
                         (''legacy='' @ show_nat (length legacyBuffer) @
                          '' new='' @ show_nat (length payload))))) \<and>
      (\<exists>st2. compilePng (env\<lparr>png_process := (\<lambda>src content. None)\<rparr>) context options
                pathData outPath st = Some (True, st1) \<and>
             compilePng (env\<lparr>png_process := (\<lambda>src content. None)\<rparr>)
                (context\<lparr>mVerbose := True\<rparr>) options pathData outPath st = Some (False, st2) \<and>
             archive st2 = archive st))"
proof (intro conjI impI)
  assume "\<not> mVerbose context"
  then show "compilePng (env\<lparr>png_process := legacy\<rparr>) context options pathData outPath st =
      compilePng env context options pathData outPath st"
    by (rule compilePng_not_verbose)
next
  assume "mVerbose context \<and> readFileToString env (path (source pathData)) = Inr content \<and>
    png_process env (source pathData) content = None \<and>
    compilePng env context options pathData outPath st = Some (ok, st')"
  then show "\<not> ok" and "archive st' = archive st"
    using compilePng_legacy_fails [of "context" env pathData content options outPath st ok st']
    by blast+
next
  assume a: "\<not> mVerbose context \<and>
    readPng env (context\<lparr>mVerbose := True\<rparr>) = readPng env context \<and>
    pngChunkFilter_ByteCount env (context\<lparr>mVerbose := True\<rparr>) =
      pngChunkFilter_ByteCount env context \<and>
    writePng env (context\<lparr>mVerbose := True\<rparr>) = writePng env context \<and>
    compilePng env context options pathData outPath st = Some (True, st1)"
  then have quiet: "\<not> mVerbose context"
    and rp: "readPng env (context\<lparr>mVerbose := True\<rparr>) = readPng env context"
    and bc: "pngChunkFilter_ByteCount env (context\<lparr>mVerbose := True\<rparr>) =
             pngChunkFilter_ByteCount env context"
    and wp: "writePng env (context\<lparr>mVerbose := True\<rparr>) = writePng env context"
    and run: "compilePng env context options pathData outPath st = Some (True, st1)"
    by blast+
  show "\<exists>content resFile encoded ninePatch crunched payload.
         readFileToString env (path (source pathData)) = Inr content \<and>
         writePng env context encoded ninePatch = Some crunched \<and>
         (ninePatch \<noteq> None) = (extension pathData = ''9.png'') \<and>
         payload =
           (if ninePatch \<noteq> None \<or>
               int (length crunched) \<le> pngChunkFilter_ByteCount env context content
            then crunched else pngChunkFilter_copy env content) \<and>
         archive st1 = archive st @
           [StartEntry outPath, Write (WriteLittleEndian32 1), Write (WriteCompiledFile resFile),
            Write (WriteData payload), FinishEntry] \<and>
         (case png_process env (source pathData) content of
            None \<Rightarrow>
              (\<exists>st2. compilePng env (context\<lparr>mVerbose := True\<rparr>) options pathData outPath st =
                        Some (False, st2) \<and>
                     archive st2 = archive st \<and> accesses st2 = accesses st1 \<and>
                     (\<not> (ninePatch \<noteq> None \<or>
                         int (length crunched) \<le>
                           pngChunkFilter_ByteCount env context content) \<longrightarrow>
                      last (diag st2) =
                        Note (Some (source pathData))
                          ''original PNG is smaller than crunched PNG, using original''))
          | Some legacyBuffer \<Rightarrow>
              (\<exists>st2. compilePng env (context\<lparr>mVerbose := True\<rparr>) options pathData outPath st =
                        Some (True, st2) \<and>
                     archive st2 = archive st1 \<and> accesses st2 = accesses st1 \<and>
                     last (diag st2) =
                       Note (Some (source pathData))
                         (''legacy='' @ show_nat (length legacyBuffer) @
                          '' new='' @ show_nat (length payload))))"
    by (rule compilePng_verbose_of_quiet [OF quiet rp bc wp run])
  let ?failing = "env\<lparr>png_process := (\<lambda>src content. None)\<rparr>"
  have run': "compilePng ?failing context options pathData outPath st = Some (True, st1)"
    using compilePng_not_verbose [OF quiet, where env = env and legacy = "\<lambda>src content. None"
        and options = options and pathData = pathData and outPath = outPath and st = st] run
    by (simp only:)
  have rp': "readPng ?failing (context\<lparr>mVerbose := True\<rparr>) = readPng ?failing context"
    and bc': "pngChunkFilter_ByteCount ?failing (context\<lparr>mVerbose := True\<rparr>) =
              pngChunkFilter_ByteCount ?failing context"
    and wp': "writePng ?failing (context\<lparr>mVerbose := True\<rparr>) = writePng ?failing context"
    using rp bc wp by simp_all
  from compilePng_verbose_of_quiet [OF quiet rp' bc' wp' run']
  obtain st2 where
    "compilePng ?failing (context\<lparr>mVerbose := True\<rparr>) options pathData outPath st =
       Some (False, st2)"
    "archive st2 = archive st"
    by auto
  with run' show "\<exists>st2. compilePng ?failing context options pathData outPath st =
        Some (True, st1) \<and>
      compilePng ?failing (context\<lparr>mVerbose := True\<rparr>) options pathData outPath st =
        Some (False, st2) \<and>
      archive st2 = archive st"
    by blast
qed


theorem verbose_runs_legacy_png_processor_witness:
  "\<not> mVerbose \<lparr>mVerbose = False\<rparr> \<and>
   readPng sample_env (\<lparr>mVerbose = False\<rparr>\<lparr>mVerbose := True\<rparr>) =
     readPng sample_env \<lparr>mVerbose = False\<rparr> \<and>
   pngChunkFilter_ByteCount sample_env (\<lparr>mVerbose = False\<rparr>\<lparr>mVerbose := True\<rparr>) =
     pngChunkFilter_ByteCount sample_env \<lparr>mVerbose = False\<rparr> \<and>
   writePng sample_env (\<lparr>mVerbose = False\<rparr>\<lparr>mVerbose := True\<rparr>) =
     writePng sample_env \<lparr>mVerbose = False\<rparr> \<and>
   png_process sample_env (source (sample_input ''res/drawable-hdpi/icon.9.png'')) ''PNG'' =
     Some ''legacy PNG'' \<and>
   (\<exists>st1 st2.
      compilePng sample_env \<lparr>mVerbose = False\<rparr> sample_options
        (sample_input ''res/drawable-hdpi/icon.9.png'') ''drawable-hdpi_icon.9.png.flat''
        initial = Some (True, st1) \<and>
      compilePng sample_env (\<lparr>mVerbose = False\<rparr>\<lparr>mVerbose := True\<rparr>) sample_options
        (sample_input ''res/drawable-hdpi/icon.9.png'') ''drawable-hdpi_icon.9.png.flat''
        initial = Some (True, st2) \<and>
      archive st2 = archive st1 \<and>
      last (diag st2) =
        Note (Some (source (sample_input ''res/drawable-hdpi/icon.9.png'')))
          (''legacy='' @ show_nat (length ''legacy PNG'') @
           '' new='' @ show_nat (length ''re-encoded PNG''))) \<and>
   png_process sample_env (source (sample_input ''res/drawable/photo.png'')) ''PNG'' = None \<and>
   mVerbose (\<lparr>mVerbose = False\<rparr>\<lparr>mVerbose := True\<rparr>) \<and>
   compilePng (sample_env\<lparr>png_process := (\<lambda>src content. Some ''legacy'')\<rparr>)
     \<lparr>mVerbose = False\<rparr> sample_options
     (sample_input ''res/drawable/photo.png'') ''drawable_photo.png.flat'' initial =
   compilePng sample_env \<lparr>mVerbose = False\<rparr> sample_options
     (sample_input ''res/drawable/photo.png'') ''drawable_photo.png.flat'' initial \<and>
   (\<exists>st1 st2.
      compilePng sample_env \<lparr>mVerbose = False\<rparr> sample_options
        (sample_input ''res/drawable/photo.png'') ''drawable_photo.png.flat'' initial =
        Some (True, st1) \<and>
      compilePng sample_env (\<lparr>mVerbose = False\<rparr>\<lparr>mVerbose := True\<rparr>) sample_options
        (sample_input ''res/drawable/photo.png'') ''drawable_photo.png.flat'' initial =
        Some (False, st2) \<and>
      archive st2 = archive initial \<and>
      last (diag st2) =
        Note (Some (source (sample_input ''res/drawable/photo.png'')))
          ''original PNG is smaller than crunched PNG, using original'')"
proof -
  let ?quiet = "\<lparr>mVerbose = False\<rparr>"
  let ?icon = "sample_input ''res/drawable-hdpi/icon.9.png''"
  let ?photo = "sample_input ''res/drawable/photo.png''"
  have q: "\<not> mVerbose ?quiet" by simp
  have rp: "readPng sample_env (?quiet\<lparr>mVerbose := True\<rparr>) = readPng sample_env ?quiet"
    by (simp add: sample_env_def)
  have bc: "pngChunkFilter_ByteCount sample_env (?quiet\<lparr>mVerbose := True\<rparr>) =
      pngChunkFilter_ByteCount sample_env ?quiet"
    by (simp add: sample_env_def)
  have wp: "writePng sample_env (?quiet\<lparr>mVerbose := True\<rparr>) = writePng sample_env ?quiet"
    by (simp add: sample_env_def)
  have rd_icon: "readFileToString sample_env (path (source ?icon)) = Inr ''PNG''"
    by (simp add: sample_defs)
  have lg_icon: "png_process sample_env (source ?icon) ''PNG'' = Some ''legacy PNG''"
    by (simp add: sample_defs)
  have ext_icon: "extension ?icon = ''9.png''"
    by (simp add: sample_defs)
  have rd_photo: "readFileToString sample_env (path (source ?photo)) = Inr ''PNG''"
    by (simp add: sample_defs)
  have lg_photo: "png_process sample_env (source ?photo) ''PNG'' = None"
    by (simp add: sample_defs)
  have ext_photo: "extension ?photo \<noteq> ''9.png''"
    by (simp add: sample_defs)
  have wr: "writePng sample_env ?quiet img np = Some ''re-encoded PNG''" for img np
    by (simp add: sample_env_def)
  have cnt: "pngChunkFilter_ByteCount sample_env ?quiet ''PNG'' = 3"
    by (simp add: sample_env_def)
  have "\<exists>st1. compilePng sample_env ?quiet sample_options ?icon
      ''drawable-hdpi_icon.9.png.flat'' initial = Some (True, st1)"
    by (simp add: sample_env_def sample_input_def sample_options_def sample_files_def
          extractResourcePathData_def sDirSep_def substr_def initial_def Source_of_def
          compilePng_def compilePng_encode_def writeHeaderAndBufferToWriter_def
          effect_defs Let_def removeBorder_sample_image)
  then obtain i1 where i1: "compilePng sample_env ?quiet sample_options ?icon
      ''drawable-hdpi_icon.9.png.flat'' initial = Some (True, i1)" ..
  have "\<exists>st1. compilePng sample_env ?quiet sample_options ?photo
      ''drawable_photo.png.flat'' initial = Some (True, st1)"
    by (simp add: sample_defs compile_defs effect_defs Let_def)
  then obtain p1 where p1: "compilePng sample_env ?quiet sample_options ?photo
      ''drawable_photo.png.flat'' initial = Some (True, p1)" ..
  from verbose_runs_legacy_png_processor
    [THEN conjunct2, THEN conjunct2, THEN mp,
     OF conjI [OF q conjI [OF rp conjI [OF bc conjI [OF wp i1]]]], THEN conjunct1]
  obtain i2 where
    "compilePng sample_env (?quiet\<lparr>mVerbose := True\<rparr>) sample_options ?icon
       ''drawable-hdpi_icon.9.png.flat'' initial = Some (True, i2)"
    "archive i2 = archive i1"
    "last (diag i2) = Note (Some (source ?icon))
       (''legacy='' @ show_nat (length ''legacy PNG'') @
        '' new='' @ show_nat (length ''re-encoded PNG''))"
    by (auto simp: rd_icon lg_icon ext_icon wr)
  note icon = i1 this
  from verbose_runs_legacy_png_processor
    [THEN conjunct2, THEN conjunct2, THEN mp,
     OF conjI [OF q conjI [OF rp conjI [OF bc conjI [OF wp p1]]]], THEN conjunct1]
  obtain p2 where
    "compilePng sample_env (?quiet\<lparr>mVerbose := True\<rparr>) sample_options ?photo
       ''drawable_photo.png.flat'' initial = Some (False, p2)"
    "archive p2 = archive initial"
    "last (diag p2) = Note (Some (source ?photo))
       ''original PNG is smaller than crunched PNG, using original''"
    by (auto simp: rd_photo lg_photo ext_photo wr cnt)
  note photo = p1 this
  have loud: "mVerbose (?quiet\<lparr>mVerbose := True\<rparr>)" by simp
  have "\<not> False \<and> archive p2 = archive initial"
    using loud rd_photo lg_photo photo(2)
    by (intro verbose_runs_legacy_png_processor
          [THEN conjunct2, THEN conjunct1, THEN mp]) blast
  have same: "compilePng (sample_env\<lparr>png_process := (\<lambda>src content. Some ''legacy'')\<rparr>)
      ?quiet sample_options ?photo ''drawable_photo.png.flat'' initial =
    compilePng sample_env ?quiet sample_options ?photo ''drawable_photo.png.flat'' initial"
    by (rule verbose_runs_legacy_png_processor [THEN conjunct1, THEN mp]) simp
  from q loud rp bc wp lg_icon lg_photo icon photo same show ?thesis by blast
qed


subsection \<open>The driver\<close>

lemma compileInputs_runEveryInput:
  "compileInputs env context options inputData error st =
     map_option (\<lambda>(oks, st'). (error \<or> False \<in> set oks, st'))
       (runEveryInput env context options inputData st)"
proof (induction inputData arbitrary: error st)
  case Nil
  then show ?case by simp
next
  case (Cons pathData inputData)
  show ?case
  proof (cases "compileInput env context options pathData st")
    case None
    then show ?thesis by simp
  next
    case (Some r)
    obtain ok st1 where r: "r = (ok, st1)" by (cases r)
    show ?thesis
    proof (cases "runEveryInput env context options inputData st1")
      case None
      with Some r Cons.IH [of "error \<or> \<not> ok" st1] show ?thesis by simp
    next
      case (Some q)
      obtain oks st2 where q: "q = (oks, st2)" by (cases q)
      from Some q \<open>compileInput env context options pathData st = Some r\<close> r
        Cons.IH [of "error \<or> \<not> ok" st1]
      show ?thesis by (cases ok) auto
    qed
  qed
qed

lemma runEveryInput_length:
  "runEveryInput env context options inputData st = Some (oks, st') \<Longrightarrow>
     length oks = length inputData"
  by (induction inputData arbitrary: oks st) (auto split: option.splits)

lemma compileXml_defined:
  assumes "parseResourceType env (resourceDir pathData) = Some ty"
  shows "compileXml env context options pathData outPath st \<noteq> None"
  using assms
  by (simp add: compileXml_def Let_def del: not_None_eq
           split: sum.split option.split prod.split)

lemma compileFile_defined:
  assumes "parseResourceType env (resourceDir pathData) = Some ty"
  shows "compileFile env context options pathData outPath st \<noteq> None"
  using assms
  by (simp add: compileFile_def Let_def del: not_None_eq split: sum.split option.split)

lemma compilePng_defined:
  assumes ty: "parseResourceType env (resourceDir pathData) = Some ty"
    and "\<And>content img np. readPng env context content = Some img \<Longrightarrow>
           ninePatch_create env img = Inr np \<Longrightarrow> removeBorder img \<noteq> None"
  shows "compilePng env context options pathData outPath st \<noteq> None"
proof -
  show ?thesis
  proof (cases "readFileToString env (path (source pathData))")
    case (Inl err)
    with ty show ?thesis by (simp add: compilePng_def Let_def del: not_None_eq)
  next
    case (Inr content)
    show ?thesis
    proof (cases "readPng env context content")
      case None
      with ty Inr show ?thesis by (simp add: compilePng_def Let_def del: not_None_eq)
    next
      case (Some img)
      show ?thesis
      proof (cases "ninePatch_create env img")
        case (Inl err)
        with ty Inr Some show ?thesis by (simp add: compilePng_def Let_def del: not_None_eq)
      next
        case np: (Inr np)
        from assms(2) [OF Some np] obtain stripped where "removeBorder img = Some stripped"
          by auto
        with ty Inr Some np show ?thesis by (simp add: compilePng_def Let_def del: not_None_eq)
      qed
    qed
  qed
qed

lemma compileInput_defined:
  assumes "\<And>content img np. readPng env context content = Some img \<Longrightarrow>
           ninePatch_create env img = Inr np \<Longrightarrow> removeBorder img \<noteq> None"
  shows "compileInput env context options pathData st \<noteq> None"
proof (cases "resourceDir pathData = ''values''")
  case True
  then show ?thesis by (simp add: compileInput_def Let_def del: not_None_eq)
next
  case False
  show ?thesis
  proof (cases "parseResourceType env (resourceDir pathData)")
    case None
    with False show ?thesis by (simp add: compileInput_def Let_def del: not_None_eq)
  next
    case (Some ty)
    from False Some compileXml_defined [OF Some] compileFile_defined [OF Some]
      compilePng_defined [OF Some assms]
    show ?thesis by (simp add: compileInput_def Let_def del: not_None_eq)
  qed
qed

lemma runEveryInput_defined:
  assumes "\<And>content img np. readPng env context content = Some img \<Longrightarrow>
           ninePatch_create env img = Inr np \<Longrightarrow> removeBorder img \<noteq> None"
  shows "runEveryInput env context options inputData st \<noteq> None"
proof (induction inputData arbitrary: st)
  case Nil
  then show ?case by simp
next
  case (Cons pathData inputData)
  have "compileInput env context options pathData st \<noteq> None"
    by (rule compileInput_defined) (rule assms)
  then obtain r where r: "compileInput env context options pathData st = Some r" by auto
  obtain ok st1 where "r = (ok, st1)" by (cases r)
  with r Cons.IH [of st1] show ?case by (auto split: option.splits)
qed

text \<open>
  C6.  The loop of the driver is the batch as the specification words it: every input is
  compiled, in order, from the state the one before it left, also after a failure, and the
  exit status is 1 if and only if some input failed (and else 0).  Where the 9-patch
  constructor accepts no picture whose border cannot be removed, every run of the loop on
  \<open>n\<close> inputs returns, with \<open>n\<close> results.
\<close>

theorem driver_runs_every_input:
  "compileAll env context options inputData st =
     map_option (\<lambda>(oks, st'). (if False \<in> set oks then 1 else 0, st'))
       (runEveryInput env context options inputData st) \<and>
   ((\<forall>content img np. readPng env context content = Some img \<and>
        ninePatch_create env img = Inr np \<longrightarrow> removeBorder img \<noteq> None) \<longrightarrow>
    (\<exists>oks st'. runEveryInput env context options inputData st = Some (oks, st') \<and>
       length oks = length inputData \<and>
       compileAll env context options inputData st =
         Some (if False \<in> set oks then 1 else 0, st')))"
proof (intro conjI impI)
  show eq: "compileAll env context options inputData st =
     map_option (\<lambda>(oks, st'). (if False \<in> set oks then 1 else 0, st'))
       (runEveryInput env context options inputData st)"
    by (cases "runEveryInput env context options inputData st")
       (auto simp: compileAll_def compileInputs_runEveryInput)
  assume "\<forall>content img np. readPng env context content = Some img \<and>
        ninePatch_create env img = Inr np \<longrightarrow> removeBorder img \<noteq> None"
  then have "\<And>content img np. readPng env context content = Some img \<Longrightarrow>
      ninePatch_create env img = Inr np \<Longrightarrow> removeBorder img \<noteq> None"
    by blast
  then have "runEveryInput env context options inputData st \<noteq> None"
    by (rule runEveryInput_defined)
  then obtain oks st' where r: "runEveryInput env context options inputData st = Some (oks, st')"
    by auto
  with eq runEveryInput_length [OF r]
  show "\<exists>oks st'. runEveryInput env context options inputData st = Some (oks, st') \<and>
       length oks = length inputData \<and>
       compileAll env context options inputData st =
         Some (if False \<in> set oks then 1 else 0, st')"
    by simp
qed


theorem driver_runs_every_input_witness:
  "removeBorder sample_image \<noteq> None \<and>
   (\<forall>context content. readPng sample_env context content = Some sample_image) \<and>
   (\<exists>st'. runEveryInput sample_env \<lparr>mVerbose = False\<rparr> sample_options
            [sample_input ''res/layout/main.xml'', sample_input ''res/layout/missing.xml'',
             sample_input ''res/raw/data.bin''] initial = Some ([True, False, True], st') \<and>
          compileAll sample_env \<lparr>mVerbose = False\<rparr> sample_options
            [sample_input ''res/layout/main.xml'', sample_input ''res/layout/missing.xml'',
             sample_input ''res/raw/data.bin''] initial = Some (1, st'))"
proof -
  let ?inputs = "[sample_input ''res/layout/main.xml'', sample_input ''res/layout/missing.xml'',
             sample_input ''res/raw/data.bin'']"
  have img: "removeBorder sample_image \<noteq> None"
    by (simp add: removeBorder_sample_image)
  have rd: "\<forall>context content. readPng sample_env context content = Some sample_image"
    by (simp add: sample_env_def)
  have sound: "\<forall>content img np.
      readPng sample_env \<lparr>mVerbose = False\<rparr> content = Some img \<and>
      ninePatch_create sample_env img = Inr np \<longrightarrow> removeBorder img \<noteq> None"
    using img rd by auto
  from driver_runs_every_input [THEN conjunct2, THEN mp, OF sound, of sample_options ?inputs initial]
  obtain oks st' where
    r: "runEveryInput sample_env \<lparr>mVerbose = False\<rparr> sample_options ?inputs initial =
          Some (oks, st')" and
    c: "compileAll sample_env \<lparr>mVerbose = False\<rparr> sample_options ?inputs initial =
          Some (if False \<in> set oks then 1 else 0, st')"
    by blast
  have "\<exists>st'. runEveryInput sample_env \<lparr>mVerbose = False\<rparr> sample_options ?inputs initial =
      Some ([True, False, True], st')"
    by (simp add: sample_defs compile_defs effect_defs Let_def)
  with r have "oks = [True, False, True]" by auto
  with r c img rd show ?thesis by auto
qed


lemma collectPathData_all:
  assumes "\<forall>arg \<in> set args. \<exists>d. extractResourcePathData (configDescription_parse env)
             (configDescription_default env) arg = Inr d"
  shows "\<exists>ds. map Inr ds =
              map (extractResourcePathData (configDescription_parse env)
                     (configDescription_default env)) args \<and>
            collectPathData env args inputData = Inr (inputData @ ds)"
  using assms
proof (induction args arbitrary: inputData)
  case Nil
  then show ?case by simp
next
  case (Cons arg args)
  from Cons.prems obtain d where d: "extractResourcePathData (configDescription_parse env)
      (configDescription_default env) arg = Inr d"
    by auto
  from Cons.prems have "\<forall>a \<in> set args. \<exists>d. extractResourcePathData
      (configDescription_parse env) (configDescription_default env) a = Inr d"
    by simp
  from Cons.IH [OF this, of "inputData @ [d]"] obtain ds where
    ds: "map Inr ds = map (extractResourcePathData (configDescription_parse env)
                     (configDescription_default env)) args"
        "collectPathData env args (inputData @ [d]) = Inr ((inputData @ [d]) @ ds)"
    by blast
  have "map Inr (d # ds) = map (extractResourcePathData (configDescription_parse env)
                     (configDescription_default env)) (arg # args)"
    using d ds(1) by simp
  moreover have "collectPathData env (arg # args) inputData = Inr (inputData @ d # ds)"
    using d ds(2) by simp
  ultimately show ?case by blast
qed

lemma collectPathData_first_failure:
  assumes "\<forall>a \<in> set pre. \<exists>d. extractResourcePathData (configDescription_parse env)
             (configDescription_default env) a = Inr d"
    and "extractResourcePathData (configDescription_parse env)
             (configDescription_default env) arg = Inl errorStr"
  shows "collectPathData env (pre @ arg # post) inputData = Inl (errorStr, arg)"
  using assms
proof (induction pre arbitrary: inputData)
  case Nil
  then show ?case by simp
next
  case (Cons a pre)
  from Cons.prems(1) obtain d where "extractResourcePathData (configDescription_parse env)
      (configDescription_default env) a = Inr d"
    by auto
  moreover from Cons.prems have "collectPathData env (pre @ arg # post) (inputData @ [d]) =
      Inl (errorStr, arg)"
    by (intro Cons.IH) simp_all
  ultimately show ?case by simp
qed

text \<open>
  C7.  In explicit mode (the flags parse, and \<^verbatim>\<open>--dir\<close> is not given): if some path fails
  to classify, \<^verbatim>\<open>compile\<close> returns 1 at the first such path, and the run leaves one
  diagnostic (the reason and the path), no access to any file and no call on an archive
  writer, which is not even created; so no input is compiled and no entry written.  If every
  path classifies, the loop over the inputs starts from the list of all the descriptors, in a
  state where no file has been accessed: all are classified before any is compiled.
\<close>

theorem explicit_mode_classifies_first:
  assumes "flags_parse env args = Some flags" and "flag_dir flags = None"
  shows "((\<exists>arg \<in> set (flag_args flags). \<exists>e.
             extractResourcePathData (configDescription_parse env)
               (configDescription_default env) arg = Inl e) \<longrightarrow>
          (\<exists>pre arg post errorStr.
             flag_args flags = pre @ arg # post \<and>
             (\<forall>a \<in> set pre. \<exists>d. extractResourcePathData (configDescription_parse env)
                (configDescription_default env) a = Inr d) \<and>
             extractResourcePathData (configDescription_parse env)
               (configDescription_default env) arg = Inl errorStr \<and>
             compile env args =
               Some (1, \<lparr>diag = [Error None (errorStr @ '' ('' @ arg @ '')'')],
                         accesses = [], archive = []\<rparr>))) \<and>
         ((\<forall>arg \<in> set (flag_args flags). \<exists>d.
             extractResourcePathData (configDescription_parse env)
               (configDescription_default env) arg = Inr d) \<longrightarrow>
          (\<exists>inputData.
             map Inr inputData =
               map (extractResourcePathData (configDescription_parse env)
                      (configDescription_default env)) (flag_args flags) \<and>
             compile env args =
               (if createDirectoryArchiveWriter env (flag_o flags) then
                  compileAll env \<lparr>mVerbose = flag_v flags\<rparr>
                    \<lparr>outputPath = flag_o flags, resDir = None,
                     pseudolocalize = flag_pseudo_localize flags,
                     legacyMode = flag_legacy flags, verbose = False\<rparr>
                    inputData
                    \<lparr>diag = [], accesses = [],
                     archive = [CreateDirectoryArchiveWriter (flag_o flags)]\<rparr>
                else
                  Some (1, \<lparr>diag = [], accesses = [],
                            archive = [CreateDirectoryArchiveWriter (flag_o flags)]\<rparr>))))"
proof (intro conjI impI)
  let ?ex = "extractResourcePathData (configDescription_parse env)
               (configDescription_default env)"
  assume "\<exists>arg \<in> set (flag_args flags). \<exists>e. ?ex arg = Inl e"
  then obtain pre arg post where
    sp: "flag_args flags = pre @ arg # post" and
    bad: "\<exists>e. ?ex arg = Inl e" and
    good: "\<forall>a \<in> set pre. \<not> (\<exists>e. ?ex a = Inl e)"
    using split_list_first_prop [of "flag_args flags" "\<lambda>arg. \<exists>e. ?ex arg = Inl e"] by blast
  from bad obtain errorStr where e: "?ex arg = Inl errorStr" by blast
  have g: "\<forall>a \<in> set pre. \<exists>d. ?ex a = Inr d"
  proof
    fix a assume "a \<in> set pre"
    with good have "\<not> (\<exists>e. ?ex a = Inl e)" by blast
    then show "\<exists>d. ?ex a = Inr d" by (cases "?ex a") auto
  qed
  have "collectPathData env (flag_args flags) [] = Inl (errorStr, arg)"
    unfolding sp using g e by (rule collectPathData_first_failure)
  with assms have "compile env args =
      Some (1, \<lparr>diag = [Error None (errorStr @ '' ('' @ arg @ '')'')],
                accesses = [], archive = []\<rparr>)"
    by (simp add: compile_def Let_def diag_error_def initial_def)
  with sp g e show "\<exists>pre arg post errorStr.
             flag_args flags = pre @ arg # post \<and>
             (\<forall>a \<in> set pre. \<exists>d. ?ex a = Inr d) \<and>
             ?ex arg = Inl errorStr \<and>
             compile env args =
               Some (1, \<lparr>diag = [Error None (errorStr @ '' ('' @ arg @ '')'')],
                         accesses = [], archive = []\<rparr>)"
    by blast
next
  let ?ex = "extractResourcePathData (configDescription_parse env)
               (configDescription_default env)"
  assume "\<forall>arg \<in> set (flag_args flags). \<exists>d. ?ex arg = Inr d"
  from collectPathData_all [OF this, of "[]"] obtain inputData where
    m: "map Inr inputData = map ?ex (flag_args flags)" and
    c: "collectPathData env (flag_args flags) [] = Inr inputData"
    by auto
  from assms c have "compile env args =
               (if createDirectoryArchiveWriter env (flag_o flags) then
                  compileAll env \<lparr>mVerbose = flag_v flags\<rparr>
                    \<lparr>outputPath = flag_o flags, resDir = None,
                     pseudolocalize = flag_pseudo_localize flags,
                     legacyMode = flag_legacy flags, verbose = False\<rparr>
                    inputData
                    \<lparr>diag = [], accesses = [],
                     archive = [CreateDirectoryArchiveWriter (flag_o flags)]\<rparr>
                else
                  Some (1, \<lparr>diag = [], accesses = [],
                            archive = [CreateDirectoryArchiveWriter (flag_o flags)]\<rparr>))"
    by (simp add: compile_def Let_def initial_def)
  with m show "\<exists>inputData.
             map Inr inputData = map ?ex (flag_args flags) \<and>
             compile env args =
               (if createDirectoryArchiveWriter env (flag_o flags) then
                  compileAll env \<lparr>mVerbose = flag_v flags\<rparr>
                    \<lparr>outputPath = flag_o flags, resDir = None,
                     pseudolocalize = flag_pseudo_localize flags,
                     legacyMode = flag_legacy flags, verbose = False\<rparr>
                    inputData
                    \<lparr>diag = [], accesses = [],
                     archive = [CreateDirectoryArchiveWriter (flag_o flags)]\<rparr>
                else
                  Some (1, \<lparr>diag = [], accesses = [],
                            archive = [CreateDirectoryArchiveWriter (flag_o flags)]\<rparr>))"
    by blast
qed

theorem explicit_mode_classifies_first_witness:
  "flags_parse sample_env [''res/layout/main.xml'', ''bad'', ''res/raw/data.bin''] =
     Some \<lparr>flag_o = ''out'', flag_dir = None, flag_pseudo_localize = False,
           flag_legacy = False, flag_v = False,
           flag_args = [''res/layout/main.xml'', ''bad'', ''res/raw/data.bin'']\<rparr> \<and>
   extractResourcePathData (configDescription_parse sample_env)
     (configDescription_default sample_env) ''bad'' = Inl ''bad resource path'' \<and>
   map_option fst (compile sample_env [''res/layout/main.xml'', ''bad'', ''res/raw/data.bin'']) =
     Some 1 \<and>
   compile sample_env [''res/layout/main.xml'', ''bad'', ''res/raw/data.bin''] =
     Some (1, \<lparr>diag = [Error None ''bad resource path (bad)''], accesses = [],
               archive = []\<rparr>)"
proof -
  let ?args = "[''res/layout/main.xml'', ''bad'', ''res/raw/data.bin'']"
  let ?flags = "\<lparr>flag_o = ''out'', flag_dir = None, flag_pseudo_localize = False,
           flag_legacy = False, flag_v = False, flag_args = ?args\<rparr>"
  have f: "flags_parse sample_env ?args = Some ?flags"
    by (simp add: sample_env_def)
  have d: "flag_dir ?flags = None" by simp
  have b: "extractResourcePathData (configDescription_parse sample_env)
     (configDescription_default sample_env) ''bad'' = Inl ''bad resource path''"
    by (simp add: extractResourcePathData_def sDirSep_def)
  have g: "extractResourcePathData (configDescription_parse sample_env)
     (configDescription_default sample_env) ''res/layout/main.xml'' =
       Inr (sample_input ''res/layout/main.xml'')"
    by (simp add: sample_defs)
  from b have "\<exists>arg \<in> set (flag_args ?flags). \<exists>e.
      extractResourcePathData (configDescription_parse sample_env)
        (configDescription_default sample_env) arg = Inl e"
    by simp
  from explicit_mode_classifies_first [OF f d, THEN conjunct1, THEN mp, OF this]
  obtain pre arg post errorStr where
    sp: "flag_args ?flags = pre @ arg # post" and
    pre: "\<forall>a \<in> set pre. \<exists>d. extractResourcePathData (configDescription_parse sample_env)
                (configDescription_default sample_env) a = Inr d" and
    e: "extractResourcePathData (configDescription_parse sample_env)
               (configDescription_default sample_env) arg = Inl errorStr" and
    c: "compile sample_env ?args =
               Some (1, \<lparr>diag = [Error None (errorStr @ '' ('' @ arg @ '')'')],
                         accesses = [], archive = []\<rparr>)"
    by blast
  from c have status: "map_option fst (compile sample_env ?args) = Some 1" by simp
  have "compile sample_env ?args =
     Some (1, \<lparr>diag = [Error None ''bad resource path (bad)''], accesses = [],
               archive = []\<rparr>)"
    by (simp add: compile_def sample_defs Let_def diag_error_def)
  with f b status show ?thesis by blast
qed


end
